theory Spec2Isabelle
  imports Complex_Main
begin

section \<open>CEMDownloader: the per-polygon WCS pipeline of poligono\_wcs.py\<close>

text \<open>
  A shallow embedding of \<^verbatim>\<open>src/poligono_wcs.py\<close>. Python exceptions are values of
  \<open>error\<close> carried in a sum (\<open>Inl\<close> raises), the widgets, the file system and every call
  into QGIS, Qt or GDAL are an explicit world: a trace of events, in the order the code
  performs them, and a map of the files the fetcher writes. What the external
  collaborators answer is an environment record of oracles.

  Python floats are modelled by the rational numbers they denote (\<open>rat\<close>): the table
  values 0.5 .. 4.0 and the constants 3600, 1024 and 100 are exact, the rounding of the
  IEEE operations and the values nan and inf are not modelled. Python strings are byte
  strings in UTF-8, so a letter beyond ASCII is written with its bytes.
\<close>

subsection \<open>Python's number formatting\<close>

definition digit :: "nat \<Rightarrow> char" where
  "digit d = char_of (48 + d)"

text \<open>\<^verbatim>\<open>str(n)\<close> of a natural number: its decimal digits, no leading zero.\<close>

fun dec :: "nat \<Rightarrow> string" where
  "dec n = (if n < 10 then [digit n] else dec (n div 10) @ [digit (n mod 10)])"

declare dec.simps [simp del]

definition str_int :: "int \<Rightarrow> string" where
  "str_int i = (if i < 0 then ''-'' @ dec (nat (- i)) else dec (nat i))"

definition zfill :: "nat \<Rightarrow> string \<Rightarrow> string" where
  "zfill w s = replicate (w - length s) (CHR ''0'') @ s"

text \<open>\<^verbatim>\<open>f"{i:04d}"\<close> for the loop index, which \<^verbatim>\<open>enumerate\<close> keeps non-negative.\<close>

definition fmt_04d :: "nat \<Rightarrow> string" where
  "fmt_04d i = zfill 4 (dec i)"

text \<open>Rounding to the nearest integer, ties to the even one, as the float formatter does.\<close>

definition round_half_even :: "rat \<Rightarrow> int" where
  "round_half_even x =
     (let fl = \<lfloor>x\<rfloor>; fr = x - of_int fl
      in if fr < 1 / 2 then fl
         else if 1 / 2 < fr then fl + 1
         else if even fl then fl else fl + 1)"

text \<open>\<^verbatim>\<open>f"{x:.pf}"\<close>: sign, integer part, a point and exactly \<open>p\<close> digits.\<close>

definition fmt_fixed :: "nat \<Rightarrow> rat \<Rightarrow> string" where
  "fmt_fixed p x =
     (let m = nat (round_half_even (\<bar>x\<bar> * 10 ^ p))
      in (if x < 0 then ''-'' else '''') @ dec (m div 10 ^ p) @ ''.'' @
         zfill p (dec (m mod 10 ^ p)))"

text \<open>\<^verbatim>\<open>int(x)\<close> of a float truncates towards zero.\<close>

definition py_int :: "rat \<Rightarrow> int" where
  "py_int x = (if 0 \<le> x then \<lfloor>x\<rfloor> else \<lceil>x\<rceil>)"

subsection \<open>Configuration, errors and paths\<close>

definition WCS_BASE :: string where
  "WCS_BASE = ''https://gaia.inegi.org.mx/geoserver/wcs''"

definition WCS_COVERAGE_ID :: string where
  "WCS_COVERAGE_ID = ''cem30_workespace:cem3_r15''"

definition NODATA_VALUE :: int where
  "NODATA_VALUE = - 9999"

definition VALID_RES :: "int list" where
  "VALID_RES = [15, 30, 60, 90, 120]"

text \<open>
  The exception classes the module raises itself (\<open>ValueError\<close>, \<open>RuntimeError\<close>), the
  one \<^verbatim>\<open>open\<close> and \<^verbatim>\<open>mkdir\<close> raise, and whatever a QGIS call raises. All are
  subclasses of \<^verbatim>\<open>Exception\<close>. \<open>error_str\<close> is \<^verbatim>\<open>str(e)\<close>.
\<close>

datatype error = ValueError string | RuntimeError string | OSError string | QgisError string

fun error_str :: "error \<Rightarrow> string" where
  "error_str (ValueError m) = m"
| "error_str (RuntimeError m) = m"
| "error_str (OSError m) = m"
| "error_str (QgisError m) = m"

type_synonym path = string

text \<open>
  \<^verbatim>\<open>a / b\<close> of pathlib on a POSIX system: an absolute right operand replaces the left
  one. The collapsing of repeated separators is not modelled.
\<close>

definition path_join :: "path \<Rightarrow> string \<Rightarrow> path" where
  "path_join a b = (if b \<noteq> [] \<and> hd b = CHR ''/'' then b else a @ ''/'' @ b)"

definition msg_invalid_step :: string where
  "msg_invalid_step =
     ''Resoluci'' @ [CHR 0xC3, CHR 0xB3] @ ''n inv'' @ [CHR 0xC3, CHR 0xA1] @
     ''lida (usa 15,30,60,90,120).''"

definition msg_invalid_res :: string where
  "msg_invalid_res =
     ''Resoluci'' @ [CHR 0xC3, CHR 0xB3] @ ''n inv'' @ [CHR 0xC3, CHR 0xA1] @
     ''lida. Usa 15,30,60,90 o 120 m.''"

definition msg_no_polygons :: string where
  "msg_no_polygons = ''La capa no contiene pol'' @ [CHR 0xC3, CHR 0xAD] @ ''gonos.''"

definition msg_done_status :: string where
  "msg_done_status =
     ''Listo. Se gener'' @ [CHR 0xC3, CHR 0xB3] @ '' un TIFF por pol'' @ [CHR 0xC3, CHR 0xAD] @
     ''gono en TEMP. Guarda copias para conservarlos.''"

definition msg_done :: string where
  "msg_done =
     ''Listo. Resultado en TEMP (un TIFF por pol'' @ [CHR 0xC3, CHR 0xAD] @ ''gono).''"

definition ellipsis :: string where
  "ellipsis = [CHR 0xE2, CHR 0x80, CHR 0xA6]"

definition arrow :: string where
  "arrow = [CHR 0xE2, CHR 0x86, CHR 0x92]"

text \<open>The prefix \<^verbatim>\<open>f"[{i}/{total}] "\<close> (the count is \<open>tot\<close> here) of every per-polygon message.\<close>

definition tag :: "nat \<Rightarrow> nat \<Rightarrow> string" where
  "tag i tot = ''['' @ dec i @ ''/'' @ dec tot @ ''] ''"

subsection \<open>human\_size, meters\_to\_deg\_step, build\_wcs\_getcoverage\_url\<close>

fun human_size_loop :: "string list \<Rightarrow> rat \<Rightarrow> string" where
  "human_size_loop [] f = fmt_fixed 1 f @ '' PB''"
| "human_size_loop (u # us) f =
     (if f < 1024 then fmt_fixed 1 f @ '' '' @ u else human_size_loop us (f / 1024))"

definition human_size :: "int \<Rightarrow> string" where
  "human_size n = human_size_loop [''B'', ''KB'', ''MB'', ''GB'', ''TB''] (of_int n)"

definition table :: "(int \<times> rat) list" where
  "table = [(15, 1 / 2), (30, 1), (60, 2), (90, 3), (120, 4)]"

definition meters_to_deg_step :: "int \<Rightarrow> error + rat" where
  "meters_to_deg_step res_m =
     (case map_of table res_m of
        None \<Rightarrow> Inl (ValueError msg_invalid_step)
      | Some arcsec \<Rightarrow> Inr (arcsec / 3600))"

type_synonym bbox = "rat \<times> rat \<times> rat \<times> rat"

text \<open>A \<^verbatim>\<open>QUrl\<close> with its \<^verbatim>\<open>QUrlQuery\<close>: the base and the query items in the order added.\<close>

record url =
  url_base :: string
  url_query :: "(string \<times> string) list"

fun join_amp :: "string list \<Rightarrow> string" where
  "join_amp [] = []"
| "join_amp [x] = x"
| "join_amp (x # y # ys) = x @ ''&'' @ join_amp (y # ys)"

text \<open>
  \<^verbatim>\<open>url.toString()\<close>. None of the characters the items hold here is one Qt would
  encode in its default rendering.
\<close>

definition toString :: "url \<Rightarrow> string" where
  "toString u = url_base u @ ''?'' @ join_amp (map (\<lambda>(k, v). k @ ''='' @ v) (url_query u))"

definition build_wcs_getcoverage_url :: "bbox \<Rightarrow> int \<Rightarrow> error + url" where
  "build_wcs_getcoverage_url bbox4326 res_m =
     (case bbox4326 of (minx, miny, maxx, maxy) \<Rightarrow>
        (case meters_to_deg_step res_m of
           Inl e \<Rightarrow> Inl e
         | Inr step \<Rightarrow>
             Inr \<lparr>url_base = WCS_BASE,
                  url_query =
                    [(''request'', ''GetCoverage''),
                     (''service'', ''WCS''),
                     (''version'', ''1.0.0''),
                     (''coverage'', WCS_COVERAGE_ID),
                     (''crs'', ''EPSG:4326''),
                     (''bbox'', fmt_fixed 8 minx @ '','' @ fmt_fixed 8 miny @ '','' @
                                fmt_fixed 8 maxx @ '','' @ fmt_fixed 8 maxy),
                     (''resx'', fmt_fixed 7 step),
                     (''resy'', fmt_fixed 7 step),
                     (''format'', ''GeoTIFF'')]\<rparr>))"

subsection \<open>The world: events, files and the environment\<close>

datatype 'g event =
    Log string
  | SetText string
  | SetRange nat nat
  | SetValue nat
  | ProcessEvents
  | Explode
  | Mkdir path
  | CallBBox 'g
  | CallWriteMask 'g path
  | HttpGet string path
  | CallClip path path path
  | CallAddRaster path

record disk_file =
  content :: string
  is_open :: bool

record 'g world =
  trace :: "'g event list"
  files :: "path \<rightharpoonup> disk_file"

text \<open>
  What a finished \<^verbatim>\<open>QNetworkReply\<close> delivered: its signals in order, then what
  \<^verbatim>\<open>reply.error()\<close> and \<^verbatim>\<open>reply.errorString()\<close> answer. \<open>http_status\<close> is the HTTP
  status code of the reply (0 when there is none), an attribute the module never reads.
\<close>

datatype signal = ReadyRead string | DownloadProgress int int

record reply =
  signals :: "signal list"
  reply_error :: nat
  error_string :: string
  http_status :: nat

text \<open>
  The collaborators. \<open>explode\<close> is \<^verbatim>\<open>_explode_to_singleparts\<close> followed by
  \<^verbatim>\<open>list(single.getFeatures())\<close>; \<open>bbox_4326\<close> is the transform and bounding box of
  \<^verbatim>\<open>_bbox_4326_from_geom\<close>; \<open>write_vector\<close> is the transform and the writer call of
  \<^verbatim>\<open>_write_single_polygon_geojson_4326\<close>, answering the writer's code and, when it
  returns a tuple with one, its message; \<open>clip\<close> is the GDAL algorithm;
  \<open>add_raster\<close> is \<^verbatim>\<open>add_raster_gray_with_stats\<close>. \<open>has_status\<close> and \<open>has_progress\<close>
  say whether the optional widgets were passed.
\<close>

record 'g env =
  layer_name :: string
  explode :: "error + 'g list"
  temp_location :: path
  mkdir_error :: "path \<Rightarrow> string option"
  open_error :: "path \<Rightarrow> string option"
  bbox_4326 :: "'g \<Rightarrow> error + bbox"
  write_vector :: "'g \<Rightarrow> path \<Rightarrow> error + (nat \<times> string option)"
  net_reply :: "string \<Rightarrow> reply"
  clip :: "path \<Rightarrow> path \<Rightarrow> path \<Rightarrow> error + unit"
  add_raster :: "path \<Rightarrow> error + bool"
  has_status :: bool
  has_progress :: bool

definition emit :: "'g event \<Rightarrow> 'g world \<Rightarrow> 'g world" where
  "emit e w = w\<lparr>trace := trace w @ [e]\<rparr>"

definition emits :: "'g event list \<Rightarrow> 'g world \<Rightarrow> 'g world" where
  "emits es w = w\<lparr>trace := trace w @ es\<rparr>"

definition log_append :: "string \<Rightarrow> 'g world \<Rightarrow> 'g world" where
  "log_append msg w = emit (Log msg) w"

definition mkdir :: "'g env \<Rightarrow> path \<Rightarrow> 'g world \<Rightarrow> (error + unit) \<times> 'g world" where
  "mkdir env d w =
     (case mkdir_error env d of
        Some m \<Rightarrow> (Inl (OSError m), emit (Mkdir d) w)
      | None \<Rightarrow> (Inr (), emit (Mkdir d) w))"

definition plugin_temp_dir :: "'g env \<Rightarrow> 'g world \<Rightarrow> (error + path) \<times> 'g world" where
  "plugin_temp_dir env w =
     (let d = path_join (temp_location env) ''CEM_QGIS_Temp''
      in case mkdir env d w of
           (Inl e, w') \<Rightarrow> (Inl e, w')
         | (Inr _, w') \<Rightarrow> (Inr d, w'))"

subsection \<open>http\_get\_to\_file\_progress\<close>

definition write_chunk :: "path \<Rightarrow> string \<Rightarrow> 'g world \<Rightarrow> 'g world" where
  "write_chunk p chunk w =
     (case files w p of
        None \<Rightarrow> w
      | Some f \<Rightarrow> w\<lparr>files := (files w)(p \<mapsto> f\<lparr>content := content f @ chunk\<rparr>)\<rparr>)"

definition close_file :: "path \<Rightarrow> 'g world \<Rightarrow> 'g world" where
  "close_file p w =
     (case files w p of
        None \<Rightarrow> w
      | Some f \<Rightarrow> w\<lparr>files := (files w)(p \<mapsto> f\<lparr>is_open := False\<rparr>)\<rparr>)"

fun on_signal ::
  "path \<Rightarrow> (int \<Rightarrow> int \<Rightarrow> 'g world \<Rightarrow> 'g world) option \<Rightarrow> signal \<Rightarrow> 'g world \<Rightarrow> 'g world"
where
  "on_signal p cb (ReadyRead chunk) w = write_chunk p chunk w"
| "on_signal p cb (DownloadProgress br bt) w =
     (case cb of None \<Rightarrow> w | Some c \<Rightarrow> c br bt w)"

definition msg_net :: string where
  "msg_net = ''Error de red: ''"

definition http_get_to_file_progress ::
  "'g env \<Rightarrow> url \<Rightarrow> path \<Rightarrow> (int \<Rightarrow> int \<Rightarrow> 'g world \<Rightarrow> 'g world) option \<Rightarrow>
   'g world \<Rightarrow> (error + unit) \<times> 'g world"
where
  "http_get_to_file_progress env u out_path progress_cb w =
     (let r = net_reply env (toString u);
          w1 = emit (HttpGet (toString u) out_path) w
      in case open_error env out_path of
           Some m \<Rightarrow> (Inl (OSError m), w1)
         | None \<Rightarrow>
             (let w2 = w1\<lparr>files := (files w1)(out_path \<mapsto> \<lparr>content = [], is_open = True\<rparr>)\<rparr>;
                  w3 = fold (on_signal out_path progress_cb) (signals r) w2;
                  w4 = close_file out_path w3
              in if reply_error r \<noteq> 0
                 then (Inl (RuntimeError (msg_net @ error_string r)), w4)
                 else (Inr (), w4)))"

subsection \<open>The mask writer\<close>

definition msg_mask :: string where
  "msg_mask = ''No se pudo exportar m'' @ [CHR 0xC3, CHR 0xA1] @ ''scara GeoJSON: ''"

definition write_single_polygon_geojson_4326 ::
  "'g env \<Rightarrow> 'g \<Rightarrow> path \<Rightarrow> 'g world \<Rightarrow> (error + unit) \<times> 'g world"
where
  "write_single_polygon_geojson_4326 env geom out_path w =
     (let w1 = emit (CallWriteMask geom out_path) w
      in case write_vector env geom out_path of
           Inl e \<Rightarrow> (Inl e, w1)
         | Inr (err_code, err_msg) \<Rightarrow>
             if err_code \<noteq> 0
             then (Inl (RuntimeError (msg_mask @ (case err_msg of None \<Rightarrow> [] | Some m \<Rightarrow> m))), w1)
             else (Inr (), w1))"

subsection \<open>download\_poligono\_wcs\_split\_per\_polygon\<close>

text \<open>The closure \<^verbatim>\<open>_cb\<close> of the loop body.\<close>

definition cb :: "'g env \<Rightarrow> nat \<Rightarrow> nat \<Rightarrow> int \<Rightarrow> int \<Rightarrow> 'g world \<Rightarrow> 'g world" where
  "cb env i tot br bt w =
     (if has_status env
      then emits
             [SetText
                (if bt \<le> 0
                 then tag i tot @ ''Descargando'' @ ellipsis @ '' '' @ human_size br
                 else tag i tot @ ''Descargando'' @ ellipsis @ '' '' @
                      str_int (py_int (of_int br * 100 / of_int (max 1 bt))) @ ''% ('' @
                      human_size br @ ''/'' @ human_size bt @ '')''),
              ProcessEvents] w
      else w)"

definition tif_raw_path :: "path \<Rightarrow> nat \<Rightarrow> path" where
  "tif_raw_path tmp_root i = path_join tmp_root (''wcs_raw_poly_'' @ fmt_04d i @ ''.tif'')"

definition mask_geojson_path :: "path \<Rightarrow> nat \<Rightarrow> path" where
  "mask_geojson_path tmp_root i = path_join tmp_root (''mask_poly_'' @ fmt_04d i @ ''.geojson'')"

definition out_tif_path :: "path \<Rightarrow> string \<Rightarrow> int \<Rightarrow> nat \<Rightarrow> path" where
  "out_tif_path tmp_root name res_m i =
     path_join tmp_root
       (name @ ''__poly'' @ fmt_04d i @ ''__cem_'' @ str_int res_m @ ''m_clip.tif'')"

text \<open>The body of the \<^verbatim>\<open>try\<close> for polygon \<open>i\<close> of \<open>tot\<close>.\<close>

definition attempt ::
  "'g env \<Rightarrow> nat \<Rightarrow> int \<Rightarrow> path \<Rightarrow> nat \<Rightarrow> 'g \<Rightarrow> 'g world \<Rightarrow> (error + unit) \<times> 'g world"
where
  "attempt env tot res_m tmp_root i geom w =
     (let w1 = emit (CallBBox geom) w
      in case bbox_4326 env geom of
           Inl e \<Rightarrow> (Inl e, w1)
         | Inr (minx, miny, maxx, maxy) \<Rightarrow>
        (case meters_to_deg_step res_m of
           Inl e \<Rightarrow> (Inl e, w1)
         | Inr step_deg \<Rightarrow>
        (let pad = step_deg;
             bbox = (minx - pad, miny - pad, maxx + pad, maxy + pad)
         in case build_wcs_getcoverage_url bbox res_m of
           Inl e \<Rightarrow> (Inl e, w1)
         | Inr u \<Rightarrow>
        (let w2 = log_append (tag i tot @ ''WCS GetCoverage: '' @ toString u) w1;
             tif_raw = tif_raw_path tmp_root i;
             mask_geojson = mask_geojson_path tmp_root i;
             out_tif = out_tif_path tmp_root (layer_name env) res_m i
         in case write_single_polygon_geojson_4326 env geom mask_geojson w2 of
           (Inl e, w3) \<Rightarrow> (Inl e, w3)
         | (Inr _, w3) \<Rightarrow>
        (let w4 = (if has_status env
                   then emits [SetText (tag i tot @ ''Descargando WCS '' @ str_int res_m @
                                        '' m'' @ ellipsis), ProcessEvents] w3
                   else w3)
         in case http_get_to_file_progress env u tif_raw (Some (cb env i tot)) w4 of
           (Inl e, w5) \<Rightarrow> (Inl e, w5)
         | (Inr _, w5) \<Rightarrow>
        (let w6 = (if has_status env
                   then emits [SetText (tag i tot @
                                        ''Recortando (gdal:cliprasterbymasklayer)'' @ ellipsis),
                               ProcessEvents] w5
                   else w5);
             w7 = emit (CallClip tif_raw mask_geojson out_tif) w6
         in case clip env tif_raw mask_geojson out_tif of
           Inl e \<Rightarrow> (Inl e, w7)
         | Inr _ \<Rightarrow>
        (let w8 = emit (CallAddRaster out_tif) w7
         in case add_raster env out_tif of
           Inl e \<Rightarrow> (Inl e, w8)
         | Inr ok \<Rightarrow>
             if ok then (Inr (), log_append (tag i tot @ ''OK '' @ arrow @ '' '' @ out_tif) w8)
             else (Inr (), log_append (tag i tot @ ''Archivo inv'' @ [CHR 0xC3, CHR 0xA1] @
                                       ''lido (no cargado): '' @ out_tif) w8))))))))"

text \<open>One turn of the loop: the \<^verbatim>\<open>try\<close>, its \<^verbatim>\<open>except Exception\<close> and its \<^verbatim>\<open>finally\<close>.\<close>

definition iteration ::
  "'g env \<Rightarrow> nat \<Rightarrow> int \<Rightarrow> path \<Rightarrow> nat \<Rightarrow> 'g \<Rightarrow> 'g world \<Rightarrow> 'g world"
where
  "iteration env tot res_m tmp_root i f w =
     (let w1 = (case attempt env tot res_m tmp_root i f w of
                  (Inl e, w') \<Rightarrow> log_append (tag i tot @ ''ERROR: '' @ error_str e) w'
                | (Inr _, w') \<Rightarrow> w')
      in if has_progress env then emits [SetValue i, ProcessEvents] w1 else w1)"

text \<open>\<^verbatim>\<open>for i, f in enumerate(feats, start=1)\<close>, entered with the next index.\<close>

fun run_loop ::
  "'g env \<Rightarrow> nat \<Rightarrow> int \<Rightarrow> path \<Rightarrow> nat \<Rightarrow> 'g list \<Rightarrow> 'g world \<Rightarrow> 'g world"
where
  "run_loop env tot res_m tmp_root i [] w = w"
| "run_loop env tot res_m tmp_root i (f # fs) w =
     run_loop env tot res_m tmp_root (Suc i) fs (iteration env tot res_m tmp_root i f w)"

text \<open>What the function reports once the loop is over.\<close>

definition completion :: "'g env \<Rightarrow> 'g event list" where
  "completion env =
     (if has_status env \<and> has_progress env then [SetText msg_done_status, ProcessEvents] else []) @
     [Log msg_done]"

definition download_poligono_wcs_split_per_polygon ::
  "'g env \<Rightarrow> int \<Rightarrow> 'g world \<Rightarrow> (error + unit) \<times> 'g world"
where
  "download_poligono_wcs_split_per_polygon env res_m w =
     (if res_m \<notin> set VALID_RES then (Inl (ValueError msg_invalid_res), w)
      else
        (let w1 = emit Explode w
         in case explode env of
              Inl e \<Rightarrow> (Inl e, w1)
            | Inr feats \<Rightarrow>
           (let tot = length feats
            in if tot = 0 then (Inr (), log_append msg_no_polygons w1)
               else
                 (let w2 = (if has_status env \<and> has_progress env
                            then emits [SetText (''Preparando '' @ dec tot @ '' pol'' @
                                                 [CHR 0xC3, CHR 0xAD] @ ''gonos'' @ ellipsis),
                                        SetRange 0 tot, SetValue 0, ProcessEvents] w1
                            else w1)
                  in case plugin_temp_dir env w2 of
                       (Inl e, w3) \<Rightarrow> (Inl e, w3)
                     | (Inr d, w3) \<Rightarrow>
                    (let tmp_root = path_join d (''wcs_'' @ layer_name env @ ''_'' @
                                                 str_int res_m @ ''m'')
                     in case mkdir env tmp_root w3 of
                          (Inl e, w4) \<Rightarrow> (Inl e, w4)
                        | (Inr _, w4) \<Rightarrow>
                            (Inr (), emits (completion env)
                                       (run_loop env tot res_m tmp_root 1 feats w4)))))))"

subsection \<open>Reading formatted numbers back\<close>

text \<open>
  The value of a string of decimal digits, and the shape of a fixed-point rendering: an
  optional minus sign, at least one digit, a point, then exactly \<open>p\<close> digits.
\<close>

definition digit_val :: "char \<Rightarrow> nat" where
  "digit_val c = of_char c - 48"

definition undec :: "string \<Rightarrow> nat" where
  "undec s = foldl (\<lambda>a c. 10 * a + digit_val c) 0 s"

definition is_digit :: "char \<Rightarrow> bool" where
  "is_digit c = (c \<in> set ''0123456789'')"

definition fixed_point :: "nat \<Rightarrow> string \<Rightarrow> bool" where
  "fixed_point p s =
     (let body = (if s \<noteq> [] \<and> hd s = CHR ''-'' then tl s else s);
          ip = takeWhile is_digit body;
          rest = drop (length ip) body
      in ip \<noteq> [] \<and> rest \<noteq> [] \<and> hd rest = CHR ''.'' \<and>
         length (tl rest) = p \<and> list_all is_digit (tl rest))"

text \<open>The bytes a reply delivered: its chunks, in order.\<close>

fun body_of :: "signal list \<Rightarrow> string" where
  "body_of [] = []"
| "body_of (ReadyRead chunk # ss) = chunk @ body_of ss"
| "body_of (DownloadProgress br bt # ss) = body_of ss"

text \<open>
  The scratch directory of a run, \<^verbatim>\<open>plugin_temp_dir() / f"wcs_{layer.name()}_{res_m}m"\<close>,
  as the function computes it before the loop.
\<close>

definition run_root :: "'g env \<Rightarrow> int \<Rightarrow> path" where
  "run_root env res_m =
     path_join (path_join (temp_location env) ''CEM_QGIS_Temp'')
       (''wcs_'' @ layer_name env @ ''_'' @ str_int res_m @ ''m'')"

subsection \<open>The log of a run\<close>

text \<open>The lines a trace appended to the log widget, in order.\<close>

fun logs :: "'g event list \<Rightarrow> string list" where
  "logs [] = []"
| "logs (Log m # es) = m # logs es"
| "logs (e # es) = logs es"

definition no_world :: "'g world" where
  "no_world = \<lparr>trace = [], files = Map.empty\<rparr>"

text \<open>
  How the \<^verbatim>\<open>try\<close> body for a polygon ends, read off the model run on the empty
  world (the result does not depend on the world, see \<open>attempt_result_any\<close>).
\<close>

definition attempt_result ::
  "'g env \<Rightarrow> nat \<Rightarrow> int \<Rightarrow> path \<Rightarrow> nat \<Rightarrow> 'g \<Rightarrow> error + unit"
where
  "attempt_result env tot res_m rt i g = fst (attempt env tot res_m rt i g no_world)"

text \<open>The request line of a polygon: logged once its padded bounding box has a URL.\<close>

definition request_line :: "'g env \<Rightarrow> nat \<Rightarrow> int \<Rightarrow> nat \<Rightarrow> 'g \<Rightarrow> string list" where
  "request_line env tot res_m i g =
     (case bbox_4326 env g of
        Inl e \<Rightarrow> []
      | Inr (minx, miny, maxx, maxy) \<Rightarrow>
          (case meters_to_deg_step res_m of
             Inl e \<Rightarrow> []
           | Inr step \<Rightarrow>
               (case build_wcs_getcoverage_url
                       (minx - step, miny - step, maxx + step, maxy + step) res_m of
                  Inl e \<Rightarrow> []
                | Inr u \<Rightarrow> [tag i tot @ ''WCS GetCoverage: '' @ toString u])))"

text \<open>
  The log lines of polygon \<open>i\<close>: its request line, then either the error line of the
  exception its attempt raised, or the line that tells whether the clipped raster loaded.
\<close>

definition polygon_logs ::
  "'g env \<Rightarrow> nat \<Rightarrow> int \<Rightarrow> path \<Rightarrow> nat \<Rightarrow> 'g \<Rightarrow> string list"
where
  "polygon_logs env tot res_m rt i g =
     request_line env tot res_m i g @
     (case attempt_result env tot res_m rt i g of
        Inl e \<Rightarrow> [tag i tot @ ''ERROR: '' @ error_str e]
      | Inr _ \<Rightarrow>
          [if add_raster env (out_tif_path rt (layer_name env) res_m i) = Inr True
           then tag i tot @ ''OK '' @ arrow @ '' '' @ out_tif_path rt (layer_name env) res_m i
           else tag i tot @ ''Archivo inv'' @ [CHR 0xC3, CHR 0xA1] @ ''lido (no cargado): '' @
                out_tif_path rt (layer_name env) res_m i])"

subsection \<open>Example runs\<close>

text \<open>
  A layer whose polygons are numbered: polygon 0 has no transform to EPSG:4326, every
  other polygon spans the box of the end-to-end scenario; the network answers a short
  body without error, unless the layer is named \<open>offline\<close>.
\<close>

definition example_env :: "string \<Rightarrow> nat list \<Rightarrow> nat env" where
  "example_env name feats =
     \<lparr>layer_name = name,
      explode = Inr feats,
      temp_location = ''/tmp'',
      mkdir_error = (\<lambda>_. None),
      open_error = (\<lambda>_. None),
      bbox_4326 = (\<lambda>g. if g = 0 then Inl (QgisError ''no transform'')
                        else Inr (- (992 / 10), 193 / 10, - (991 / 10), 194 / 10)),
      write_vector = (\<lambda>_ _. Inr (0, None)),
      net_reply = (\<lambda>_. if name = ''offline''
                        then \<lparr>signals = [ReadyRead ''II''], reply_error = 2,
                              error_string = ''Connection closed'', http_status = 0\<rparr>
                        else \<lparr>signals = [ReadyRead ''II'', DownloadProgress 4 4, ReadyRead ''*0''],
                              reply_error = 0, error_string = [], http_status = 200\<rparr>),
      clip = (\<lambda>_ _ _. Inr ()),
      add_raster = (\<lambda>_. Inr True),
      has_status = False,
      has_progress = True\<rparr>"

definition world0 :: "nat world" where
  "world0 = \<lparr>trace = [], files = Map.empty\<rparr>"

text \<open>
  The same layer behind a server that answers an unfollowed redirect: status 302, no
  body, and no error from Qt.
\<close>

definition redirect_env :: "nat env" where
  "redirect_env =
     (example_env ''zona'' [5])
       \<lparr>net_reply := (\<lambda>_. \<lparr>signals = [], reply_error = 0, error_string = [],
                              http_status = 302\<rparr>)\<rparr>"

text \<open>A layer of two polygons, the first without transform, run with both widgets.\<close>

definition widgets_env :: "nat env" where
  "widgets_env = (example_env ''zona'' [0, 5])\<lparr>has_status := True\<rparr>"

section \<open>Properties\<close>

subsection \<open>The resolution table\<close>

lemma step_values:
  "meters_to_deg_step 15 = Inr (1 / 7200)"
  "meters_to_deg_step 30 = Inr (1 / 3600)"
  "meters_to_deg_step 60 = Inr (1 / 1800)"
  "meters_to_deg_step 90 = Inr (1 / 1200)"
  "meters_to_deg_step 120 = Inr (1 / 900)"
  by (simp_all add: meters_to_deg_step_def table_def)

lemma step_valid:
  assumes "res_m \<in> set VALID_RES"
  shows "\<exists>s. meters_to_deg_step res_m = Inr s"
proof -
  have "res_m = 15 \<or> res_m = 30 \<or> res_m = 60 \<or> res_m = 90 \<or> res_m = 120"
    using assms by (simp add: VALID_RES_def)
  then show ?thesis
    using step_values by blast
qed

text \<open>
  Claim C3. \<open>meters_to_deg_step\<close> returns 0.5/3600 for 15, 1.0/3600 for 30, 2.0/3600 for
  60, 3.0/3600 for 90 and 4.0/3600 for 120, and raises the invalid-resolution
  \<open>ValueError\<close> for every other input. The quotients are the exact rationals.
\<close>

theorem meters_to_deg_step_table:
  "meters_to_deg_step 15 = Inr (0.5 / 3600) \<and>
   meters_to_deg_step 30 = Inr (1.0 / 3600) \<and>
   meters_to_deg_step 60 = Inr (2.0 / 3600) \<and>
   meters_to_deg_step 90 = Inr (3.0 / 3600) \<and>
   meters_to_deg_step 120 = Inr (4.0 / 3600) \<and>
   (res_m \<notin> {15, 30, 60, 90, 120} \<longrightarrow>
      meters_to_deg_step res_m = Inl (ValueError msg_invalid_step))"
  by (simp add: meters_to_deg_step_def table_def)

theorem meters_to_deg_step_table_witness:
  "(45::int) \<notin> {15, 30, 60, 90, 120} \<and>
   meters_to_deg_step 45 = Inl (ValueError msg_invalid_step) \<and>
   meters_to_deg_step 30 = Inr (1 / 3600)"
  using meters_to_deg_step_table [of 45] by simp

text \<open>
  Claim C9. Once the entry check \<open>res_m \<in> VALID_RES\<close> has passed, the calls of
  \<open>meters_to_deg_step\<close> in the loop, the direct one and the one inside
  \<open>build_wcs_getcoverage_url\<close>, return a value: the raising branch is unreachable.
\<close>

theorem loop_step_never_raises:
  assumes "res_m \<in> set VALID_RES"
  shows "(\<exists>s. meters_to_deg_step res_m = Inr s) \<and>
         (\<exists>u. build_wcs_getcoverage_url b res_m = Inr u)"
proof -
  obtain s where s: "meters_to_deg_step res_m = Inr s"
    using step_valid [OF assms] by blast
  then show ?thesis
    by (cases b) (simp add: build_wcs_getcoverage_url_def)
qed

theorem loop_step_never_raises_witness:
  "(60::int) \<in> set VALID_RES \<and> (\<exists>s. meters_to_deg_step 60 = Inr s) \<and>
   (\<exists>u. build_wcs_getcoverage_url (0, 0, 1, 1) 60 = Inr u)"
proof -
  have h: "(60::int) \<in> set VALID_RES" by (simp add: VALID_RES_def)
  show ?thesis using h loop_step_never_raises [OF h, of "(0, 0, 1, 1)"] by simp
qed

subsection \<open>The checks before the loop\<close>

text \<open>
  Claim C6. When the exploded layer has no single-part polygon, the function logs the
  no-polygons message and returns normally: the only events are the explode call and
  that log line, so no directory, mask, download or clip is attempted.
\<close>

theorem empty_input_succeeds:
  assumes "res_m \<in> set VALID_RES" and "explode env = Inr []"
  shows "download_poligono_wcs_split_per_polygon env res_m w =
           (Inr (), w\<lparr>trace := trace w @ [Explode, Log msg_no_polygons]\<rparr>)"
  using assms
  by (simp add: download_poligono_wcs_split_per_polygon_def emit_def log_append_def)

theorem empty_input_succeeds_witness:
  "(30::int) \<in> set VALID_RES \<and> explode (example_env ''zona'' []) = Inr [] \<and>
   download_poligono_wcs_split_per_polygon (example_env ''zona'' []) 30 world0 =
     (Inr (), world0\<lparr>trace := trace world0 @ [Explode, Log msg_no_polygons]\<rparr>)"
proof -
  have h: "(30::int) \<in> set VALID_RES" by (simp add: VALID_RES_def)
  have e: "explode (example_env ''zona'' []) = Inr []" by (simp add: example_env_def)
  show ?thesis
    using h e empty_input_succeeds [OF h e, of world0] by simp
qed

subsection \<open>Scratch paths\<close>

lemma digit_simps:
  "digit 0 = CHR ''0''" "digit (Suc 0) = CHR ''1''" "digit 2 = CHR ''2''"
  "digit 3 = CHR ''3''" "digit 4 = CHR ''4''" "digit 5 = CHR ''5''"
  "digit 6 = CHR ''6''" "digit 7 = CHR ''7''" "digit 8 = CHR ''8''"
  "digit 9 = CHR ''9''"
  unfolding digit_def by code_simp+

lemma digit_val_digit: "d < 10 \<Longrightarrow> digit_val (digit d) = d"
  by (simp add: digit_val_def digit_def)

lemma digit_cases:
  assumes "d < 10"
  shows "d \<in> {0, Suc 0, 2, 3, 4, 5, 6, 7, 8, 9}"
  using assms by auto

lemma is_digit_digit: "d < 10 \<Longrightarrow> is_digit (digit d)"
  using digit_cases [of d] by (auto simp add: is_digit_def digit_simps)

lemma digit_not_p: "d < 10 \<Longrightarrow> digit d \<noteq> CHR ''p''"
  using digit_cases [of d] by (auto simp add: digit_simps)

lemma dec_last: "\<exists>ds. dec n = ds @ [digit (n mod 10)]"
  by (subst dec.simps) auto

lemma undec_append: "undec (s @ [c]) = 10 * undec s + digit_val c"
  by (simp add: undec_def)

lemma undec_dec: "undec (dec n) = n"
proof (induction n rule: dec.induct)
  case (1 n)
  show ?case
  proof (cases "n < 10")
    case True
    then show ?thesis
      by (subst dec.simps) (simp add: undec_def digit_val_digit)
  next
    case False
    then have "undec (dec n) = 10 * undec (dec (n div 10)) + digit_val (digit (n mod 10))"
      by (subst dec.simps) (simp add: undec_append)
    with False "1" show ?thesis
      by (simp add: digit_val_digit)
  qed
qed

lemma undec_zeros: "undec (replicate k (CHR ''0'') @ s) = undec s"
proof -
  have "foldl (\<lambda>a c. 10 * a + digit_val c) 0 (replicate k (CHR ''0'')) = 0"
    by (induction k) (simp_all add: digit_val_def)
  then show ?thesis
    by (simp add: undec_def)
qed

lemma fmt_04d_inj: "fmt_04d i = fmt_04d j \<Longrightarrow> i = j"
proof -
  assume "fmt_04d i = fmt_04d j"
  then have "undec (fmt_04d i) = undec (fmt_04d j)" by simp
  then show "i = j"
    by (simp add: fmt_04d_def zfill_def undec_zeros undec_dec)
qed

lemma dec_digits: "list_all is_digit (dec n)"
proof (induction n rule: dec.induct)
  case (1 n)
  show ?case
  proof (cases "n < 10")
    case True
    then show ?thesis by (subst dec.simps) (simp add: is_digit_digit)
  next
    case False
    with "1" show ?thesis by (subst dec.simps) (simp add: is_digit_digit)
  qed
qed

lemma dec_nonempty: "dec n \<noteq> []"
  by (subst dec.simps) simp

lemma length_dec: "n < 10 ^ p \<Longrightarrow> 0 < p \<Longrightarrow> length (dec n) \<le> p"
proof (induction n arbitrary: p rule: dec.induct)
  case (1 n)
  show ?case
  proof (cases "n < 10")
    case True
    with "1.prems" show ?thesis by (subst dec.simps) simp
  next
    case False
    obtain q where q: "p = Suc q" using "1.prems" by (cases p) auto
    from False "1.prems" q have lt: "n div 10 < 10 ^ q"
      by (simp add: less_mult_imp_div_less mult.commute)
    from False lt have "0 < q" by (cases q) auto
    with "1.IH" [OF False lt] have "length (dec (n div 10)) \<le> q" by simp
    with False q show ?thesis by (subst dec.simps) simp
  qed
qed


lemma length_zfill: "length s \<le> w \<Longrightarrow> length (zfill w s) = w"
  by (simp add: zfill_def)

lemma is_digit_0: "is_digit (CHR ''0'')"
  by (simp add: is_digit_def)

lemma zfill_digits: "list_all is_digit s \<Longrightarrow> list_all is_digit (zfill w s)"
  by (auto simp add: zfill_def is_digit_0 list_all_iff)

lemma takeWhile_digits_point:
  "list_all is_digit ds \<Longrightarrow> takeWhile is_digit (ds @ CHR ''.'' # fs) = ds"
proof -
  have "\<not> is_digit (CHR ''.'')" by (simp add: is_digit_def)
  then show "list_all is_digit ds \<Longrightarrow> takeWhile is_digit (ds @ CHR ''.'' # fs) = ds"
    by (induction ds) simp_all
qed

lemma fixed_point_build:
  assumes "ds \<noteq> []" and "list_all is_digit ds" and "list_all is_digit fs" and "length fs = p"
    and "sg = [] \<or> sg = ''-''"
  shows "fixed_point p (sg @ ds @ ''.'' @ fs)"
proof -
  have "\<not> is_digit (CHR ''-'')" by (simp add: is_digit_def)
  then have hd_ds: "hd ds \<noteq> CHR ''-''"
    using assms(1,2) by (cases ds) auto
  have body: "(if sg @ ds @ ''.'' @ fs \<noteq> [] \<and> hd (sg @ ds @ ''.'' @ fs) = CHR ''-''
               then tl (sg @ ds @ ''.'' @ fs) else sg @ ds @ ''.'' @ fs) = ds @ CHR ''.'' # fs"
    using assms(5) hd_ds assms(1) by (cases ds) auto
  show ?thesis
    unfolding fixed_point_def body Let_def
    using assms by (simp add: takeWhile_digits_point)
qed

lemma fmt_fixed_fixed_point: "0 < p \<Longrightarrow> fixed_point p (fmt_fixed p x)"
proof -
  assume p: "0 < p"
  define m where "m = nat (round_half_even (\<bar>x\<bar> * 10 ^ p))"
  have len: "length (zfill p (dec (m mod 10 ^ p))) = p"
    by (rule length_zfill) (rule length_dec [OF _ p], simp)
  have "fixed_point p ((if x < 0 then ''-'' else []) @ dec (m div 10 ^ p) @ ''.'' @
          zfill p (dec (m mod 10 ^ p)))"
    by (rule fixed_point_build) (simp_all add: dec_nonempty dec_digits zfill_digits len)
  then show ?thesis
    by (simp add: fmt_fixed_def m_def Let_def)
qed


lemma floor_numeral_quot:
  "\<lfloor>(numeral a / numeral b :: rat)\<rfloor> = numeral a div numeral b"
  using floor_divide_of_int_eq [of "numeral a" "numeral b", where ?'a = rat] by simp

lemma dec_numeral:
  "dec (numeral k) =
     (if numeral k < (10::nat) then [digit (numeral k)]
      else dec (numeral k div 10) @ [digit (numeral k mod 10)])"
  by (rule dec.simps)

lemma dec_small: "dec 0 = ''0''" "dec (Suc 0) = ''1''"
  by (simp_all add: dec.simps digit_simps)

lemma replicate_numeral: "replicate (numeral k) x = x # replicate (pred_numeral k) x"
  by (simp add: numeral_eq_Suc)

lemmas evals =
  fmt_fixed_def round_half_even_def zfill_def fmt_04d_def str_int_def tag_def
  floor_numeral_quot dec_numeral dec_small digit_simps replicate_numeral Let_def


lemma path_join_suffix: "\<exists>pre. path_join r a = pre @ a"
  by (simp add: path_join_def)

lemma path_join_rel_inj:
  assumes "path_join r (n @ CHR ''_'' # a) = path_join r (n @ CHR ''_'' # b)"
  shows "a = b"
proof (cases "n \<noteq> [] \<and> hd n = CHR ''/''")
  case True
  with assms show ?thesis by (simp add: path_join_def)
next
  case False
  then have "\<And>x. \<not> (n @ CHR ''_'' # x \<noteq> [] \<and> hd (n @ CHR ''_'' # x) = CHR ''/'')"
    by (cases n) auto
  with assms show ?thesis by (simp add: path_join_def)
qed

lemma tif_raw_inj: "tif_raw_path r i = tif_raw_path r j \<Longrightarrow> i = j"
proof -
  assume "tif_raw_path r i = tif_raw_path r j"
  then have "path_join r (''wcs_raw_poly'' @ CHR ''_'' # (fmt_04d i @ ''.tif'')) =
             path_join r (''wcs_raw_poly'' @ CHR ''_'' # (fmt_04d j @ ''.tif''))"
    by (simp add: tif_raw_path_def)
  then have "fmt_04d i @ ''.tif'' = fmt_04d j @ ''.tif''"
    by (rule path_join_rel_inj)
  then show "i = j" by (simp add: fmt_04d_inj)
qed

lemma mask_geojson_inj: "mask_geojson_path r i = mask_geojson_path r j \<Longrightarrow> i = j"
proof -
  assume "mask_geojson_path r i = mask_geojson_path r j"
  then have "path_join r (''mask_poly'' @ CHR ''_'' # (fmt_04d i @ ''.geojson'')) =
             path_join r (''mask_poly'' @ CHR ''_'' # (fmt_04d j @ ''.geojson''))"
    by (simp add: mask_geojson_path_def)
  then have "fmt_04d i @ ''.geojson'' = fmt_04d j @ ''.geojson''"
    by (rule path_join_rel_inj)
  then show "i = j" by (simp add: fmt_04d_inj)
qed

lemma out_tif_inj: "out_tif_path r n res i = out_tif_path r n res j \<Longrightarrow> i = j"
proof -
  let ?t = "''__cem_'' @ str_int res @ ''m_clip.tif''"
  assume "out_tif_path r n res i = out_tif_path r n res j"
  then have "path_join r (n @ CHR ''_'' # (''_poly'' @ fmt_04d i @ ?t)) =
             path_join r (n @ CHR ''_'' # (''_poly'' @ fmt_04d j @ ?t))"
    by (simp add: out_tif_path_def)
  then have "''_poly'' @ fmt_04d i @ ?t = ''_poly'' @ fmt_04d j @ ?t"
    by (rule path_join_rel_inj)
  then show "i = j" by (simp add: fmt_04d_inj)
qed

lemma fmt_04d_last: "\<exists>ds. fmt_04d i = ds @ [digit (i mod 10)]"
proof -
  obtain ds where "dec i = ds @ [digit (i mod 10)]"
    using dec_last by blast
  then have "fmt_04d i = (replicate (4 - length (dec i)) (CHR ''0'') @ ds) @ [digit (i mod 10)]"
    by (simp add: fmt_04d_def zfill_def)
  then show ?thesis by blast
qed

lemma tif_raw_shape: "\<exists>pre. tif_raw_path r i = pre @ digit (i mod 10) # ''.tif''"
proof -
  obtain ds where "fmt_04d i = ds @ [digit (i mod 10)]"
    using fmt_04d_last by blast
  moreover obtain p where "tif_raw_path r i = p @ ''wcs_raw_poly_'' @ fmt_04d i @ ''.tif''"
    unfolding tif_raw_path_def using path_join_suffix by blast
  ultimately have "tif_raw_path r i = (p @ ''wcs_raw_poly_'' @ ds) @ digit (i mod 10) # ''.tif''"
    by simp
  then show ?thesis by blast
qed

lemma mask_geojson_shape: "\<exists>pre. mask_geojson_path r i = pre @ ''.geojson''"
proof -
  obtain p where "mask_geojson_path r i = p @ ''mask_poly_'' @ fmt_04d i @ ''.geojson''"
    unfolding mask_geojson_path_def using path_join_suffix by blast
  then have "mask_geojson_path r i = (p @ ''mask_poly_'' @ fmt_04d i) @ ''.geojson''"
    by simp
  then show ?thesis by blast
qed

lemma out_tif_shape: "\<exists>pre. out_tif_path r n res i = pre @ ''p.tif''"
proof -
  obtain p where "out_tif_path r n res i =
      p @ n @ ''__poly'' @ fmt_04d i @ ''__cem_'' @ str_int res @ ''m_clip.tif''"
    unfolding out_tif_path_def using path_join_suffix by blast
  then have "out_tif_path r n res i =
      (p @ n @ ''__poly'' @ fmt_04d i @ ''__cem_'' @ str_int res @ ''m_cli'') @ ''p.tif''"
    by simp
  then show ?thesis by blast
qed

lemma raw_not_mask: "tif_raw_path r i \<noteq> mask_geojson_path r j"
proof
  assume eq: "tif_raw_path r i = mask_geojson_path r j"
  obtain a where a: "tif_raw_path r i = a @ digit (i mod 10) # ''.tif''"
    using tif_raw_shape by blast
  obtain b where b: "mask_geojson_path r j = b @ ''.geojson''"
    using mask_geojson_shape by blast
  have "last (tif_raw_path r i) = CHR ''f''" by (simp add: a)
  moreover have "last (mask_geojson_path r j) = CHR ''n''" by (simp add: b)
  ultimately show False using eq by simp
qed

lemma out_not_mask: "out_tif_path r n res i \<noteq> mask_geojson_path r j"
proof
  assume eq: "out_tif_path r n res i = mask_geojson_path r j"
  obtain a where a: "out_tif_path r n res i = a @ ''p.tif''"
    using out_tif_shape by blast
  obtain b where b: "mask_geojson_path r j = b @ ''.geojson''"
    using mask_geojson_shape by blast
  have "last (out_tif_path r n res i) = CHR ''f''" by (simp add: a)
  moreover have "last (mask_geojson_path r j) = CHR ''n''" by (simp add: b)
  ultimately show False using eq by simp
qed

lemma raw_not_out: "tif_raw_path r i \<noteq> out_tif_path r n res j"
proof
  assume eq: "tif_raw_path r i = out_tif_path r n res j"
  obtain a where a: "tif_raw_path r i = a @ digit (i mod 10) # ''.tif''"
    using tif_raw_shape by blast
  obtain b where b: "out_tif_path r n res j = b @ ''p.tif''"
    using out_tif_shape by blast
  have "a @ digit (i mod 10) # ''.tif'' = b @ CHR ''p'' # ''.tif''"
    using eq a b by simp
  then have "digit (i mod 10) = CHR ''p''"
    by simp
  then show False
    using digit_not_p [of "i mod 10"] by simp
qed

text \<open>
  Claim C10. For distinct indices \<open>i\<close> and \<open>j\<close> of one run (same scratch directory, layer
  name and resolution) the raw raster path, the mask path and the clipped output path
  of \<open>i\<close> all differ from the three paths of \<open>j\<close>.
\<close>

theorem scratch_paths_distinct:
  assumes "i \<noteq> j"
  shows "tif_raw_path r i \<noteq> tif_raw_path r j \<and>
         mask_geojson_path r i \<noteq> mask_geojson_path r j \<and>
         out_tif_path r n res i \<noteq> out_tif_path r n res j \<and>
         tif_raw_path r i \<noteq> mask_geojson_path r j \<and>
         tif_raw_path r i \<noteq> out_tif_path r n res j \<and>
         mask_geojson_path r i \<noteq> tif_raw_path r j \<and>
         mask_geojson_path r i \<noteq> out_tif_path r n res j \<and>
         out_tif_path r n res i \<noteq> tif_raw_path r j \<and>
         out_tif_path r n res i \<noteq> mask_geojson_path r j"
  using assms tif_raw_inj [of r i j] mask_geojson_inj [of r i j] out_tif_inj [of r n res i j]
    raw_not_mask [of r i j] raw_not_out [of r i n res j] raw_not_mask [of r j i]
    out_not_mask [of r n res j i] raw_not_out [of r j n res i] out_not_mask [of r n res i j]
  by metis

theorem scratch_paths_distinct_witness:
  "(1::nat) \<noteq> 2 \<and>
   tif_raw_path ''/tmp/w'' 1 \<noteq> tif_raw_path ''/tmp/w'' 2 \<and>
   mask_geojson_path ''/tmp/w'' 1 \<noteq> mask_geojson_path ''/tmp/w'' 2 \<and>
   out_tif_path ''/tmp/w'' ''zona'' 30 1 \<noteq> out_tif_path ''/tmp/w'' ''zona'' 30 2 \<and>
   tif_raw_path ''/tmp/w'' 1 \<noteq> out_tif_path ''/tmp/w'' ''zona'' 30 2 \<and>
   tif_raw_path ''/tmp/w'' 1 = ''/tmp/w/wcs_raw_poly_0001.tif'' \<and>
   out_tif_path ''/tmp/w'' ''zona'' 30 2 = ''/tmp/w/zona__poly0002__cem_30m_clip.tif''"
proof -
  have h: "(1::nat) \<noteq> 2" by simp
  have e: "tif_raw_path ''/tmp/w'' 1 = ''/tmp/w/wcs_raw_poly_0001.tif''"
    "out_tif_path ''/tmp/w'' ''zona'' 30 2 = ''/tmp/w/zona__poly0002__cem_30m_clip.tif''"
    by (simp_all add: tif_raw_path_def out_tif_path_def path_join_def evals)
  show ?thesis
    using h e scratch_paths_distinct [OF h, of "''/tmp/w''" "''zona''" 30] by blast
qed

subsection \<open>The coverage request\<close>

text \<open>
  Claim C4. \<open>build_wcs_getcoverage_url\<close> is a function of the bounding box and the
  resolution alone (it takes and returns no world, so equal inputs give the equal URL).
  For a valid resolution it returns the URL whose items are the fixed parameters
  request=GetCoverage, service=WCS, version=1.0.0, the coverage, crs=EPSG:4326 and
  format=GeoTIFF, the four bbox fields each rendered with exactly 8 decimal digits, and
  resx and resy both the angular step rendered with exactly 7.
\<close>

theorem build_url_format:
  assumes "res_m \<in> set VALID_RES"
  shows "\<exists>step u.
           meters_to_deg_step res_m = Inr step \<and>
           build_wcs_getcoverage_url (minx, miny, maxx, maxy) res_m = Inr u \<and>
           url_base u = WCS_BASE \<and>
           url_query u =
             [(''request'', ''GetCoverage''), (''service'', ''WCS''), (''version'', ''1.0.0''),
              (''coverage'', WCS_COVERAGE_ID), (''crs'', ''EPSG:4326''),
              (''bbox'', fmt_fixed 8 minx @ '','' @ fmt_fixed 8 miny @ '','' @
                         fmt_fixed 8 maxx @ '','' @ fmt_fixed 8 maxy),
              (''resx'', fmt_fixed 7 step), (''resy'', fmt_fixed 7 step),
              (''format'', ''GeoTIFF'')] \<and>
           toString u =
             WCS_BASE @ ''?request=GetCoverage&service=WCS&version=1.0.0&coverage='' @
             WCS_COVERAGE_ID @ ''&crs=EPSG:4326&bbox='' @
             fmt_fixed 8 minx @ '','' @ fmt_fixed 8 miny @ '','' @
             fmt_fixed 8 maxx @ '','' @ fmt_fixed 8 maxy @
             ''&resx='' @ fmt_fixed 7 step @ ''&resy='' @ fmt_fixed 7 step @
             ''&format=GeoTIFF'' \<and>
           fixed_point 8 (fmt_fixed 8 minx) \<and> fixed_point 8 (fmt_fixed 8 miny) \<and>
           fixed_point 8 (fmt_fixed 8 maxx) \<and> fixed_point 8 (fmt_fixed 8 maxy) \<and>
           fixed_point 7 (fmt_fixed 7 step)"
proof -
  obtain step where s: "meters_to_deg_step res_m = Inr step"
    using step_valid [OF assms] by blast
  show ?thesis
    using s by (simp add: build_wcs_getcoverage_url_def toString_def fmt_fixed_fixed_point)
qed

theorem build_url_format_witness:
  "(30::int) \<in> set VALID_RES \<and>
   (\<exists>u. build_wcs_getcoverage_url
          (- (992 / 10) - 1 / 3600, 193 / 10 - 1 / 3600, - (991 / 10) + 1 / 3600,
           194 / 10 + 1 / 3600) 30 = Inr u \<and>
        toString u =
          ''https://gaia.inegi.org.mx/geoserver/wcs?request=GetCoverage&service=WCS&version=1.0.0&coverage=cem30_workespace:cem3_r15&crs=EPSG:4326&bbox=-99.20027778,19.29972222,-99.09972222,19.40027778&resx=0.0002778&resy=0.0002778&format=GeoTIFF'')"
proof -
  have h: "(30::int) \<in> set VALID_RES" by (simp add: VALID_RES_def)
  obtain step u where
    s: "meters_to_deg_step 30 = Inr step" and
    b: "build_wcs_getcoverage_url
          (- (992 / 10) - 1 / 3600, 193 / 10 - 1 / 3600, - (991 / 10) + 1 / 3600,
           194 / 10 + 1 / 3600) 30 = Inr u" and
    t: "toString u =
             WCS_BASE @ ''?request=GetCoverage&service=WCS&version=1.0.0&coverage='' @
             WCS_COVERAGE_ID @ ''&crs=EPSG:4326&bbox='' @
             fmt_fixed 8 (- (992 / 10) - 1 / 3600) @ '','' @
             fmt_fixed 8 (193 / 10 - 1 / 3600) @ '','' @
             fmt_fixed 8 (- (991 / 10) + 1 / 3600) @ '','' @
             fmt_fixed 8 (194 / 10 + 1 / 3600) @
             ''&resx='' @ fmt_fixed 7 step @ ''&resy='' @ fmt_fixed 7 step @
             ''&format=GeoTIFF''"
    using build_url_format [OF h, of "- (992 / 10) - 1 / 3600" "193 / 10 - 1 / 3600"
        "- (991 / 10) + 1 / 3600" "194 / 10 + 1 / 3600"]
    by blast
  have step: "step = 1 / 3600"
    using s by (simp add: step_values)
  have f:
    "fmt_fixed 8 (- (992 / 10) - 1 / 3600) = ''-99.20027778''"
    "fmt_fixed 8 (193 / 10 - 1 / 3600) = ''19.29972222''"
    "fmt_fixed 8 (- (991 / 10) + 1 / 3600) = ''-99.09972222''"
    "fmt_fixed 8 (194 / 10 + 1 / 3600) = ''19.40027778''"
    "fmt_fixed 7 (1 / 3600) = ''0.0002778''"
    by (simp_all add: evals)
  have "toString u =
          ''https://gaia.inegi.org.mx/geoserver/wcs?request=GetCoverage&service=WCS&version=1.0.0&coverage=cem30_workespace:cem3_r15&crs=EPSG:4326&bbox=-99.20027778,19.29972222,-99.09972222,19.40027778&resx=0.0002778&resy=0.0002778&format=GeoTIFF''"
    unfolding t step f by (simp add: WCS_BASE_def WCS_COVERAGE_ID_def)
  with h b show ?thesis by blast
qed

subsection \<open>The fetcher\<close>

lemma trace_emit [simp]: "trace (emit e w) = trace w @ [e]"
  by (simp add: emit_def)

lemma trace_emits [simp]: "trace (emits es w) = trace w @ es"
  by (simp add: emits_def)

lemma trace_log_append [simp]: "trace (log_append m w) = trace w @ [Log m]"
  by (simp add: log_append_def)

lemma files_emit [simp]: "files (emit e w) = files w"
  by (simp add: emit_def)

lemma files_emits [simp]: "files (emits es w) = files w"
  by (simp add: emits_def)

lemma trace_write_chunk [simp]: "trace (write_chunk p c w) = trace w"
  by (simp add: write_chunk_def split: option.splits)

lemma trace_close_file [simp]: "trace (close_file p w) = trace w"
  by (simp add: close_file_def split: option.splits)

lemma files_cb [simp]: "files (cb env i tot br bt w) = files w"
  by (simp add: cb_def)

lemma trace_cb: "\<exists>es. trace (cb env i tot br bt w) = trace w @ es"
  by (simp add: cb_def)

lemma fold_signal_files:
  assumes keep: "\<forall>c br bt w. progress_cb = Some c \<longrightarrow> files (c br bt w) = files w"
  shows "files w p = Some f \<Longrightarrow>
         files (fold (on_signal p progress_cb) ss w) p = Some (f\<lparr>content := content f @ body_of ss\<rparr>)"
proof (induction ss arbitrary: w f)
  case Nil
  then show ?case by simp
next
  case (Cons s ss)
  show ?case
  proof (cases s)
    case (ReadyRead chunk)
    have "files (write_chunk p chunk w) p = Some (f\<lparr>content := content f @ chunk\<rparr>)"
      using Cons.prems by (simp add: write_chunk_def)
    from Cons.IH [OF this] ReadyRead show ?thesis by simp
  next
    case (DownloadProgress br bt)
    have "files (on_signal p progress_cb (DownloadProgress br bt) w) p = Some f"
      using Cons.prems keep by (cases progress_cb) simp_all
    from Cons.IH [OF this] DownloadProgress show ?thesis by simp
  qed
qed

lemma fold_signal_trace:
  assumes ext: "\<forall>c br bt w. progress_cb = Some c \<longrightarrow> (\<exists>es. trace (c br bt w) = trace w @ es)"
  shows "\<exists>es. trace (fold (on_signal p progress_cb) ss w) = trace w @ es"
proof (induction ss arbitrary: w)
  case Nil
  then show ?case by simp
next
  case (Cons s ss)
  have "\<exists>es. trace (on_signal p progress_cb s w) = trace w @ es"
    using ext by (cases s; cases progress_cb) simp_all
  then obtain es1 where 1: "trace (on_signal p progress_cb s w) = trace w @ es1"
    by blast
  obtain es2 where
    "trace (fold (on_signal p progress_cb) ss (on_signal p progress_cb s w)) =
     trace (on_signal p progress_cb s w) @ es2"
    using Cons.IH by blast
  with 1 show ?case by simp
qed

text \<open>
  Claim C8 says that the fetcher raises exactly when the transfer failed at the
  transport level, a non-success status included, and never returns a failed transfer
  as a download. It does not: the only test is \<^verbatim>\<open>reply.error()\<close>, and the status of
  the reply is never read. A reply with status 302, no body and no Qt error is returned
  as success, with an empty file left on disk.
\<close>

theorem redirect_returned_as_success:
  "http_status (net_reply redirect_env
      (toString \<lparr>url_base = WCS_BASE, url_query = [(''request'', ''GetCoverage'')]\<rparr>)) = 302 \<and>
   fst (http_get_to_file_progress redirect_env
          \<lparr>url_base = WCS_BASE, url_query = [(''request'', ''GetCoverage'')]\<rparr>
          ''/tmp/raw.tif'' None world0) = Inr () \<and>
   files (snd (http_get_to_file_progress redirect_env
          \<lparr>url_base = WCS_BASE, url_query = [(''request'', ''GetCoverage'')]\<rparr>
          ''/tmp/raw.tif'' None world0)) ''/tmp/raw.tif'' =
     Some \<lparr>content = [], is_open = False\<rparr>"
  by (simp add: redirect_env_def example_env_def http_get_to_file_progress_def Let_def
      close_file_def world0_def emit_def)

text \<open>
  Claim C8, amended. Once the destination file is open, \<open>http_get_to_file_progress\<close>
  raises the network \<open>RuntimeError\<close> exactly when \<^verbatim>\<open>reply.error()\<close> of the finished
  reply is not zero, and returns normally otherwise, whatever the status of the reply
  and the length of its body. In both cases the destination file is closed and stays on
  disk holding the bytes received: the fetcher never deletes it. The progress callback
  is assumed not to touch the files, as the one of the loop does not.
\<close>

theorem fetch_raises_iff_reply_error:
  assumes "open_error env out_path = None"
    and "\<forall>c br bt w. progress_cb = Some c \<longrightarrow> files (c br bt w) = files w"
  shows "fst (http_get_to_file_progress env u out_path progress_cb w) =
           (if reply_error (net_reply env (toString u)) \<noteq> 0
            then Inl (RuntimeError (msg_net @ error_string (net_reply env (toString u))))
            else Inr ()) \<and>
         files (snd (http_get_to_file_progress env u out_path progress_cb w)) out_path =
           Some \<lparr>content = body_of (signals (net_reply env (toString u))), is_open = False\<rparr>"
proof -
  let ?r = "net_reply env (toString u)"
  let ?w1 = "emit (HttpGet (toString u) out_path) w"
  let ?w2 = "?w1\<lparr>files := (files ?w1)(out_path \<mapsto> \<lparr>content = [], is_open = True\<rparr>)\<rparr>"
  let ?w3 = "fold (on_signal out_path progress_cb) (signals ?r) ?w2"
  have "files ?w2 out_path = Some \<lparr>content = [], is_open = True\<rparr>" by simp
  from fold_signal_files [OF assms(2) this]
  have 3: "files ?w3 out_path = Some \<lparr>content = body_of (signals ?r), is_open = True\<rparr>"
    by simp
  then have 4: "files (close_file out_path ?w3) out_path =
      Some \<lparr>content = body_of (signals ?r), is_open = False\<rparr>"
    by (simp add: close_file_def)
  show ?thesis
    using assms(1) 4 by (simp add: http_get_to_file_progress_def Let_def)
qed

theorem fetch_raises_iff_reply_error_witness:
  "open_error (example_env ''offline'' [5]) ''/tmp/raw.tif'' = None \<and>
   fst (http_get_to_file_progress (example_env ''offline'' [5])
          \<lparr>url_base = WCS_BASE, url_query = []\<rparr> ''/tmp/raw.tif'' None world0) =
     Inl (RuntimeError ''Error de red: Connection closed'') \<and>
   files (snd (http_get_to_file_progress (example_env ''offline'' [5])
          \<lparr>url_base = WCS_BASE, url_query = []\<rparr> ''/tmp/raw.tif'' None world0)) ''/tmp/raw.tif'' =
     Some \<lparr>content = ''II'', is_open = False\<rparr>"
proof -
  have h: "open_error (example_env ''offline'' [5]) ''/tmp/raw.tif'' = None"
    by (simp add: example_env_def)
  have k: "\<forall>c br bt (w::nat world).
      (None::(int \<Rightarrow> int \<Rightarrow> nat world \<Rightarrow> nat world) option) = Some c \<longrightarrow>
      files (c br bt w) = files w"
    by simp
  have r: "net_reply (example_env ''offline'' fs) x =
      \<lparr>signals = [ReadyRead ''II''], reply_error = 2, error_string = ''Connection closed'',
       http_status = 0\<rparr>"
    for x fs
    by (simp add: example_env_def)
  show ?thesis
    using h fetch_raises_iff_reply_error [OF h k, of "\<lparr>url_base = WCS_BASE, url_query = []\<rparr>" world0]
    by (simp add: r msg_net_def)
qed

subsection \<open>Traces of the loop\<close>

lemma http_traceD:
  assumes "http_get_to_file_progress env u p (Some (cb env i tot)) w = (r, w')"
  shows "\<exists>es. trace w' = trace w @ HttpGet (toString u) p # es"
proof -
  have ext: "\<forall>c br bt w. Some (cb env i tot) = Some c \<longrightarrow> (\<exists>es. trace (c br bt w) = trace w @ es)"
    using trace_cb by auto
  let ?w1 = "emit (HttpGet (toString u) p) w"
  let ?w2 = "?w1\<lparr>files := (files ?w1)(p \<mapsto> \<lparr>content = [], is_open = True\<rparr>)\<rparr>"
  obtain es where
    "trace (fold (on_signal p (Some (cb env i tot))) (signals (net_reply env (toString u))) ?w2) =
     trace ?w2 @ es"
    using fold_signal_trace [OF ext] by blast
  then show ?thesis
    using assms
    by (auto simp add: http_get_to_file_progress_def Let_def split: option.splits if_splits)
qed

lemma mask_traceD:
  "write_single_polygon_geojson_4326 env g p w = (r, w') \<Longrightarrow>
   trace w' = trace w @ [CallWriteMask g p]"
  by (auto simp add: write_single_polygon_geojson_4326_def Let_def
      split: sum.splits prod.splits if_splits)

lemma mask_ok:
  "write_vector env g p = Inr (0, m) \<Longrightarrow>
   write_single_polygon_geojson_4326 env g p w = (Inr (), emit (CallWriteMask g p) w)"
  by (simp add: write_single_polygon_geojson_4326_def Let_def)

lemma attempt_trace:
  "\<exists>es. trace (snd (attempt env tot res_m rt i g w)) = trace w @ CallBBox g # es"
  by (auto simp add: attempt_def Let_def split: sum.splits prod.splits
      dest!: mask_traceD http_traceD)

lemma build_padded:
  "meters_to_deg_step res_m = Inr step \<Longrightarrow> \<exists>u. build_wcs_getcoverage_url b res_m = Inr u"
  by (cases b) (simp add: build_wcs_getcoverage_url_def)


lemma iteration_trace:
  "\<exists>es. trace (iteration env tot res_m rt i f w) = trace w @ CallBBox f # es"
proof -
  obtain es where
    "trace (snd (attempt env tot res_m rt i f w)) = trace w @ CallBBox f # es"
    using attempt_trace [of env tot res_m rt i f w] by blast
  then show ?thesis
    by (cases "attempt env tot res_m rt i f w")
      (auto simp add: iteration_def Let_def split: sum.splits)
qed

lemma iteration_error_trace:
  assumes "fst (attempt env tot res_m rt i f w) = Inl e"
  shows "\<exists>pre. trace (iteration env tot res_m rt i f w) =
           pre @ Log (tag i tot @ ''ERROR: '' @ error_str e) #
           (if has_progress env then [SetValue i, ProcessEvents] else []) \<and>
           (\<exists>es. pre = trace w @ es)"
proof -
  obtain es where
    "trace (snd (attempt env tot res_m rt i f w)) = trace w @ CallBBox f # es"
    using attempt_trace [of env tot res_m rt i f w] by blast
  then show ?thesis
    using assms
    by (cases "attempt env tot res_m rt i f w") (auto simp add: iteration_def Let_def)
qed

lemma run_loop_trace:
  "\<exists>es. trace (run_loop env tot res_m rt i fs w) = trace w @ es \<and>
        (\<forall>f \<in> set fs. CallBBox f \<in> set es)"
proof (induction fs arbitrary: i w)
  case Nil
  then show ?case by simp
next
  case (Cons f fs)
  obtain es1 where 1:
    "trace (iteration env tot res_m rt i f w) = trace w @ CallBBox f # es1"
    using iteration_trace [of env tot res_m rt i f w] by blast
  obtain es2 where 2:
    "trace (run_loop env tot res_m rt (Suc i) fs (iteration env tot res_m rt i f w)) =
     trace (iteration env tot res_m rt i f w) @ es2"
    "\<forall>g \<in> set fs. CallBBox g \<in> set es2"
    using Cons.IH by blast
  have "trace (run_loop env tot res_m rt i (f # fs) w) = trace w @ (CallBBox f # es1 @ es2)"
    using 1 2 by simp
  moreover have "\<forall>g \<in> set (f # fs). CallBBox g \<in> set (CallBBox f # es1 @ es2)"
    using 2 by auto
  ultimately show ?case by blast
qed

lemma run_loop_append:
  "run_loop env tot res_m rt i (xs @ ys) w =
   run_loop env tot res_m rt (i + length xs) ys (run_loop env tot res_m rt i xs w)"
  by (induction xs arbitrary: i w) simp_all

lemma download_unfold:
  assumes "res_m \<in> set VALID_RES" and "explode env = Inr feats" and "feats \<noteq> []"
    and "\<forall>d. mkdir_error env d = None"
  shows "\<exists>es. download_poligono_wcs_split_per_polygon env res_m w =
           (Inr (), emits (completion env)
              (run_loop env (length feats) res_m (run_root env res_m) 1 feats
                 (emits (Explode # es) w)))"
proof -
  let ?pre = "if has_status env \<and> has_progress env
    then [SetText (''Preparando '' @ dec (length feats) @ '' pol'' @ [CHR 0xC3, CHR 0xAD] @
                   ''gonos'' @ ellipsis),
          SetRange 0 (length feats), SetValue 0, ProcessEvents] else []"
  let ?es = "?pre @ [Mkdir (path_join (temp_location env) ''CEM_QGIS_Temp''),
                     Mkdir (run_root env res_m)]"
  have "download_poligono_wcs_split_per_polygon env res_m w =
           (Inr (), emits (completion env)
              (run_loop env (length feats) res_m (run_root env res_m) 1 feats
                 (emits (Explode # ?es) w)))"
    using assms
    by (simp add: download_poligono_wcs_split_per_polygon_def Let_def plugin_temp_dir_def
        mkdir_def run_root_def emit_def emits_def)
  then show ?thesis by blast
qed

subsection \<open>The batch\<close>

lemma download_passes:
  assumes "res_m \<in> set VALID_RES"
  shows "\<exists>es. trace (snd (download_poligono_wcs_split_per_polygon env res_m w)) =
              trace w @ Explode # es"
proof (cases "explode env")
  case (Inl e)
  with assms show ?thesis
    by (simp add: download_poligono_wcs_split_per_polygon_def Let_def)
next
  case (Inr feats)
  define R where "R tot rt i w0 = drop (length (trace w0)) (trace (run_loop env tot res_m rt i feats w0))"
    for tot rt i w0
  have R: "trace (run_loop env tot res_m rt i feats w0) = trace w0 @ R tot rt i w0" for tot rt i w0
    using run_loop_trace [of env tot res_m rt i feats w0] by (auto simp add: R_def)
  show ?thesis
    using assms Inr
    by (auto simp add: download_poligono_wcs_split_per_polygon_def Let_def plugin_temp_dir_def
        mkdir_def R split: option.splits)
qed

text \<open>
  Claim C2. For a resolution outside 15, 30, 60, 90, 120 the batch entry point raises
  the invalid-resolution \<open>ValueError\<close> and leaves the world as it was: no event at
  all, so no network request, no mask and no other I/O. For a resolution in the set the
  check passes: the next thing the function does is the explode call.
\<close>

theorem invalid_resolution_fails_first:
  "(res_m \<notin> {15, 30, 60, 90, 120} \<longrightarrow>
      download_poligono_wcs_split_per_polygon env res_m w =
        (Inl (ValueError msg_invalid_res), w)) \<and>
   (res_m \<in> {15, 30, 60, 90, 120} \<longrightarrow>
      (\<exists>es. trace (snd (download_poligono_wcs_split_per_polygon env res_m w)) =
            trace w @ Explode # es))"
proof -
  have s: "set VALID_RES = {15, 30, 60, 90, 120}"
    by (simp add: VALID_RES_def)
  have "res_m \<notin> set VALID_RES \<Longrightarrow>
      download_poligono_wcs_split_per_polygon env res_m w = (Inl (ValueError msg_invalid_res), w)"
    by (simp add: download_poligono_wcs_split_per_polygon_def)
  then show ?thesis
    using download_passes [of res_m env w] unfolding s by blast
qed

theorem invalid_resolution_fails_first_witness:
  "(45::int) \<notin> {15, 30, 60, 90, 120} \<and>
   download_poligono_wcs_split_per_polygon (example_env ''zona'' [5]) 45 world0 =
     (Inl (ValueError msg_invalid_res), world0) \<and>
   trace world0 = [] \<and>
   (30::int) \<in> {15, 30, 60, 90, 120} \<and>
   (\<exists>es. trace (snd (download_poligono_wcs_split_per_polygon (example_env ''zona'' [5]) 30 world0)) =
         trace world0 @ Explode # es)"
  using invalid_resolution_fails_first [of 45 "example_env ''zona'' [5]" world0]
    invalid_resolution_fails_first [of 30 "example_env ''zona'' [5]" world0]
  by (simp add: world0_def)

text \<open>
  Claim C1. In a batch of \<open>N\<close> polygons, when the attempt on polygon \<open>K + 1\<close> raises an
  exception \<open>e\<close> (whatever sub-step raised it), the function still returns normally;
  its trace holds the log line \<open>[K+1/N] ERROR: e\<close>, and after that line it holds the
  bounding-box call of every later polygon: the loop goes on to index \<open>N\<close>.
\<close>

theorem polygon_failure_isolated:
  assumes "res_m \<in> set VALID_RES" and "explode env = Inr feats"
    and "\<forall>d. mkdir_error env d = None" and "K < length feats"
    and "\<forall>w. fst (attempt env (length feats) res_m (run_root env res_m) (Suc K) (feats ! K) w) = Inl e"
  shows "\<exists>w' pre post.
           download_poligono_wcs_split_per_polygon env res_m w = (Inr (), w') \<and>
           trace w' = pre @ Log (tag (Suc K) (length feats) @ ''ERROR: '' @ error_str e) # post \<and>
           (\<forall>j. K < j \<and> j < length feats \<longrightarrow> CallBBox (feats ! j) \<in> set post)"
proof -
  let ?N = "length feats" and ?rt = "run_root env res_m"
  have ne: "feats \<noteq> []" using assms(4) by auto
  obtain es0 where dl:
    "download_poligono_wcs_split_per_polygon env res_m w =
       (Inr (), emits (completion env)
          (run_loop env ?N res_m ?rt 1 feats (emits (Explode # es0) w)))"
    using download_unfold [OF assms(1,2) ne assms(3), of w] by blast
  let ?W0 = "emits (Explode # es0) w"
  let ?WA = "run_loop env ?N res_m ?rt 1 (take K feats) ?W0"
  let ?WB = "iteration env ?N res_m ?rt (Suc K) (feats ! K) ?WA"
  let ?WC = "run_loop env ?N res_m ?rt (Suc (Suc K)) (drop (Suc K) feats) ?WB"
  have split: "feats = take K feats @ feats ! K # drop (Suc K) feats"
    using assms(4) by (simp add: id_take_nth_drop)
  have "run_loop env ?N res_m ?rt 1 (take K feats @ feats ! K # drop (Suc K) feats) ?W0 = ?WC"
    using assms(4) by (simp add: run_loop_append)
  then have loop: "run_loop env ?N res_m ?rt 1 feats ?W0 = ?WC"
    using split by simp
  have "fst (attempt env ?N res_m ?rt (Suc K) (feats ! K) ?WA) = Inl e"
    using assms(5) by blast
  from iteration_error_trace [OF this]
  obtain pre where b:
    "trace ?WB = pre @ Log (tag (Suc K) ?N @ ''ERROR: '' @ error_str e) #
       (if has_progress env then [SetValue (Suc K), ProcessEvents] else [])"
    by blast
  obtain es2 where c: "trace ?WC = trace ?WB @ es2"
    and calls: "\<forall>f \<in> set (drop (Suc K) feats). CallBBox f \<in> set es2"
    using run_loop_trace [of env ?N res_m ?rt "Suc (Suc K)" "drop (Suc K) feats" ?WB] by blast
  let ?post = "(if has_progress env then [SetValue (Suc K), ProcessEvents] else []) @ es2 @
               completion env"
  have tr: "trace (emits (completion env) ?WC) =
      pre @ Log (tag (Suc K) ?N @ ''ERROR: '' @ error_str e) # ?post"
    using b c by simp
  have later: "\<forall>j. K < j \<and> j < ?N \<longrightarrow> CallBBox (feats ! j) \<in> set ?post"
  proof (intro allI impI)
    fix j assume j: "K < j \<and> j < ?N"
    then have "feats ! j = drop (Suc K) feats ! (j - Suc K)" by simp
    moreover have "j - Suc K < length (drop (Suc K) feats)" using j by auto
    ultimately have "feats ! j \<in> set (drop (Suc K) feats)"
      using nth_mem by metis
    with calls show "CallBBox (feats ! j) \<in> set ?post" by simp
  qed
  show ?thesis
    using dl loop tr later by metis
qed


theorem polygon_failure_isolated_witness:
  "(30::int) \<in> set VALID_RES \<and>
   explode (example_env ''zona'' [0, 5]) = Inr [0, 5] \<and>
   (\<forall>d. mkdir_error (example_env ''zona'' [0, 5]) d = None) \<and>
   (0::nat) < length [0::nat, 5] \<and>
   (\<forall>w. fst (attempt (example_env ''zona'' [0, 5]) (length [0::nat, 5]) 30
              (run_root (example_env ''zona'' [0, 5]) 30) (Suc 0) ([0, 5] ! 0) w) =
        Inl (QgisError ''no transform'')) \<and>
   (\<exists>w' pre post.
      download_poligono_wcs_split_per_polygon (example_env ''zona'' [0, 5]) 30 world0 =
        (Inr (), w') \<and>
      trace w' = pre @ Log ''[1/2] ERROR: no transform'' # post \<and>
      CallBBox 5 \<in> set post)"
proof -
  let ?E = "example_env ''zona'' [0, 5]"
  have h1: "(30::int) \<in> set VALID_RES" by (simp add: VALID_RES_def)
  have h2: "explode ?E = Inr [0, 5]" by (simp add: example_env_def)
  have h3: "\<forall>d. mkdir_error ?E d = None" by (simp add: example_env_def)
  have h4: "(0::nat) < length [0::nat, 5]" by simp
  have h5: "\<forall>w. fst (attempt ?E (length [0::nat, 5]) 30 (run_root ?E 30) (Suc 0) ([0, 5] ! 0) w) =
      Inl (QgisError ''no transform'')"
    by (simp add: attempt_def example_env_def Let_def)
  obtain w' pre post where
    d: "download_poligono_wcs_split_per_polygon ?E 30 world0 = (Inr (), w')" and
    t: "trace w' = pre @ Log (tag (Suc 0) (length [0::nat, 5]) @ ''ERROR: '' @
          error_str (QgisError ''no transform'')) # post" and
    c: "\<forall>j. 0 < j \<and> j < length [0::nat, 5] \<longrightarrow> CallBBox ([0, 5] ! j) \<in> set post"
    using polygon_failure_isolated [OF h1 h2 h3 h4 h5, of world0] by blast
  have "0 < (1::nat) \<and> 1 < length [0::nat, 5]" by simp
  then have "CallBBox ([0::nat, 5] ! 1) \<in> set post"
    using c by blast
  then have c5: "CallBBox 5 \<in> set post" by simp
  have len: "length [0::nat, 5] = 2" by simp
  have t': "trace w' = pre @ Log ''[1/2] ERROR: no transform'' # post"
    using t unfolding len by (simp add: evals)
  show ?thesis
    using h1 h2 h3 h4 h5 d t' c5 by blast
qed

subsection \<open>Padding of the bounding box\<close>

lemma attempt_trace_url:
  assumes "bbox_4326 env g = Inr (minx, miny, maxx, maxy)"
    and "meters_to_deg_step res_m = Inr step"
    and "build_wcs_getcoverage_url (minx - step, miny - step, maxx + step, maxy + step) res_m = Inr u"
  shows "\<exists>es. trace (snd (attempt env tot res_m rt i g w)) =
           trace w @ CallBBox g # Log (tag i tot @ ''WCS GetCoverage: '' @ toString u) #
           CallWriteMask g (mask_geojson_path rt i) # es"
  using assms
  by (auto simp add: attempt_def Let_def split: sum.splits prod.splits
      dest!: mask_traceD http_traceD)

lemma attempt_trace_get:
  assumes "bbox_4326 env g = Inr (minx, miny, maxx, maxy)"
    and "meters_to_deg_step res_m = Inr step"
    and "build_wcs_getcoverage_url (minx - step, miny - step, maxx + step, maxy + step) res_m = Inr u"
    and "write_vector env g (mask_geojson_path rt i) = Inr (0, m)"
  shows "HttpGet (toString u) (tif_raw_path rt i) \<in>
           set (drop (length (trace w) + 3) (trace (snd (attempt env tot res_m rt i g w))))"
  using assms
  by (auto simp add: attempt_def Let_def mask_ok split: sum.splits prod.splits
      dest!: http_traceD)

text \<open>
  Claim C5. For a polygon whose reprojected bounding box is \<open>(minx, miny, maxx, maxy)\<close>,
  processed at a resolution with angular step \<open>step\<close>, the URL the attempt logs, and
  requests once the mask is written, is the one the query builder returns for
  \<open>(minx - step, miny - step, maxx + step, maxy + step)\<close>.
\<close>

theorem bbox_padded_by_step:
  assumes "bbox_4326 env g = Inr (minx, miny, maxx, maxy)"
    and "meters_to_deg_step res_m = Inr step"
  shows "\<exists>u es.
           build_wcs_getcoverage_url (minx - step, miny - step, maxx + step, maxy + step) res_m =
             Inr u \<and>
           trace (snd (attempt env tot res_m rt i g w)) =
             trace w @ CallBBox g # Log (tag i tot @ ''WCS GetCoverage: '' @ toString u) #
             CallWriteMask g (mask_geojson_path rt i) # es \<and>
           (\<forall>m. write_vector env g (mask_geojson_path rt i) = Inr (0, m) \<longrightarrow>
                HttpGet (toString u) (tif_raw_path rt i) \<in> set es)"
proof -
  obtain u where u:
    "build_wcs_getcoverage_url (minx - step, miny - step, maxx + step, maxy + step) res_m = Inr u"
    using build_padded [OF assms(2)] by blast
  obtain es where es:
    "trace (snd (attempt env tot res_m rt i g w)) =
       trace w @ CallBBox g # Log (tag i tot @ ''WCS GetCoverage: '' @ toString u) #
       CallWriteMask g (mask_geojson_path rt i) # es"
    using attempt_trace_url [OF assms u, where tot = tot and rt = rt and i = i and w = w] by blast
  have d: "drop (length (trace w) + 3) (trace (snd (attempt env tot res_m rt i g w))) = es"
    unfolding es by simp
  have "HttpGet (toString u) (tif_raw_path rt i) \<in> set es"
    if "write_vector env g (mask_geojson_path rt i) = Inr (0, m)" for m
    using attempt_trace_get [OF assms u that, where tot = tot and w = w] unfolding d .
  with u es show ?thesis by blast
qed

theorem bbox_padded_by_step_witness:
  "bbox_4326 (example_env ''zona'' [5]) 5 = Inr (- (992 / 10), 193 / 10, - (991 / 10), 194 / 10) \<and>
   meters_to_deg_step 30 = Inr (1 / 3600) \<and>
   (\<exists>u es.
      build_wcs_getcoverage_url
        (- (992 / 10) - 1 / 3600, 193 / 10 - 1 / 3600, - (991 / 10) + 1 / 3600,
         194 / 10 + 1 / 3600) 30 = Inr u \<and>
      trace (snd (attempt (example_env ''zona'' [5]) 1 30 ''/tmp/w'' 1 5 world0)) =
        trace world0 @ CallBBox 5 # Log (tag 1 1 @ ''WCS GetCoverage: '' @ toString u) #
        CallWriteMask 5 (mask_geojson_path ''/tmp/w'' 1) # es \<and>
      HttpGet (toString u) (tif_raw_path ''/tmp/w'' 1) \<in> set es)"
proof -
  have h1: "bbox_4326 (example_env ''zona'' [5]) 5 =
      Inr (- (992 / 10), 193 / 10, - (991 / 10), 194 / 10)"
    by (simp add: example_env_def)
  have h2: "meters_to_deg_step 30 = Inr (1 / 3600)"
    by (rule step_values)
  have wv: "write_vector (example_env ''zona'' [5]) 5 (mask_geojson_path ''/tmp/w'' 1) = Inr (0, None)"
    by (simp add: example_env_def)
  show ?thesis
    using h1 h2 wv
      bbox_padded_by_step [OF h1 h2, where tot = 1 and rt = "''/tmp/w''" and i = 1 and w = world0]
    by blast
qed

subsection \<open>What is reported on completion\<close>

lemma example_env_simps [simp]:
  "layer_name (example_env n fs) = n"
  "explode (example_env n fs) = Inr fs"
  "temp_location (example_env n fs) = ''/tmp''"
  "mkdir_error (example_env n fs) d = None"
  "open_error (example_env n fs) p = None"
  "bbox_4326 (example_env n fs) 0 = Inl (QgisError ''no transform'')"
  "bbox_4326 (example_env n fs) 5 = Inr (- (992 / 10), 193 / 10, - (991 / 10), 194 / 10)"
  "write_vector (example_env n fs) g p = Inr (0, None)"
  "net_reply (example_env ''zona'' fs) x =
     \<lparr>signals = [ReadyRead ''II'', DownloadProgress 4 4, ReadyRead ''*0''],
      reply_error = 0, error_string = [], http_status = 200\<rparr>"
  "clip (example_env n fs) a b c = Inr ()"
  "add_raster (example_env n fs) p = Inr True"
  "has_status (example_env n fs) = False"
  "has_progress (example_env n fs) = True"
  by (simp_all add: example_env_def)

lemma example_fail:
  "attempt (example_env n fs) tot 30 rt i 0 w = (Inl (QgisError ''no transform''), emit (CallBBox 0) w)"
  by (simp add: attempt_def)

lemma example_url:
  "build_wcs_getcoverage_url
     (- (992 / 10) - 1 / 3600, 193 / 10 - 1 / 3600, - (991 / 10) + 1 / 3600, 194 / 10 + 1 / 3600)
     30 = Inr u \<Longrightarrow>
   toString u =
     ''https://gaia.inegi.org.mx/geoserver/wcs?request=GetCoverage&service=WCS&version=1.0.0&coverage=cem30_workespace:cem3_r15&crs=EPSG:4326&bbox=-99.20027778,19.29972222,-99.09972222,19.40027778&resx=0.0002778&resy=0.0002778&format=GeoTIFF''"
  by (auto simp add: build_wcs_getcoverage_url_def step_values toString_def WCS_BASE_def
      WCS_COVERAGE_ID_def evals)

lemma example_paths:
  "run_root (example_env ''zona'' fs) 30 = ''/tmp/CEM_QGIS_Temp/wcs_zona_30m''"
  "tif_raw_path ''/tmp/CEM_QGIS_Temp/wcs_zona_30m'' (Suc 0) =
     ''/tmp/CEM_QGIS_Temp/wcs_zona_30m/wcs_raw_poly_0001.tif''"
  "mask_geojson_path ''/tmp/CEM_QGIS_Temp/wcs_zona_30m'' (Suc 0) =
     ''/tmp/CEM_QGIS_Temp/wcs_zona_30m/mask_poly_0001.geojson''"
  "out_tif_path ''/tmp/CEM_QGIS_Temp/wcs_zona_30m'' ''zona'' 30 (Suc 0) =
     ''/tmp/CEM_QGIS_Temp/wcs_zona_30m/zona__poly0001__cem_30m_clip.tif''"
  "tag (Suc 0) (Suc 0) = ''[1/1] ''"
  by (simp_all add: run_root_def tif_raw_path_def mask_geojson_path_def out_tif_path_def
      path_join_def evals)


lemma example_http_eq:
  "http_get_to_file_progress (example_env ''zona'' fs) u p
     (Some (cb (example_env ''zona'' fs) i tot)) w =
   (Inr (), (emit (HttpGet (toString u) p) w)
      \<lparr>files := (files w)(p \<mapsto> \<lparr>content = ''II*0'', is_open = False\<rparr>)\<rparr>)"
  by (simp add: http_get_to_file_progress_def Let_def cb_def write_chunk_def close_file_def
      emit_def)

lemma example_ok:
  assumes "build_wcs_getcoverage_url
     (- (992 / 10) - 1 / 3600, 193 / 10 - 1 / 3600, - (991 / 10) + 1 / 3600, 194 / 10 + 1 / 3600)
     30 = Inr u"
  shows "trace (snd (attempt (example_env ''zona'' fs) tot 30 rt i 5 w)) =
     trace w @
     [CallBBox 5, Log (tag i tot @ ''WCS GetCoverage: '' @ toString u),
      CallWriteMask 5 (mask_geojson_path rt i),
      HttpGet (toString u) (tif_raw_path rt i),
      CallClip (tif_raw_path rt i) (mask_geojson_path rt i) (out_tif_path rt ''zona'' 30 i),
      CallAddRaster (out_tif_path rt ''zona'' 30 i),
      Log (tag i tot @ ''OK '' @ arrow @ '' '' @ out_tif_path rt ''zona'' 30 i)]"
    and "fst (attempt (example_env ''zona'' fs) tot 30 rt i 5 w) = Inr ()"
  using assms
  by (simp_all add: attempt_def Let_def write_single_polygon_geojson_4326_def example_http_eq
      step_values)


text \<open>
  Claim C7 says that on completion the function reports a summary with the count of
  succeeded polygons, the count of failed polygons and the failed indices with their
  detail. It does not: the complete traces of a run whose only polygon fails and of a
  run whose only polygon succeeds both end, after the last polygon's progress update,
  with the same fixed line \<open>msg_done\<close>, which carries no count and no index.
\<close>

theorem no_summary_counterexample:
  "trace (snd (download_poligono_wcs_split_per_polygon (example_env ''zona'' [0]) 30 world0)) =
     [Explode, Mkdir ''/tmp/CEM_QGIS_Temp'', Mkdir ''/tmp/CEM_QGIS_Temp/wcs_zona_30m'',
      CallBBox 0, Log ''[1/1] ERROR: no transform'', SetValue 1, ProcessEvents,
      Log msg_done] \<and>
   trace (snd (download_poligono_wcs_split_per_polygon (example_env ''zona'' [5]) 30 world0)) =
     [Explode, Mkdir ''/tmp/CEM_QGIS_Temp'', Mkdir ''/tmp/CEM_QGIS_Temp/wcs_zona_30m'',
      CallBBox 5,
      Log ''[1/1] WCS GetCoverage: https://gaia.inegi.org.mx/geoserver/wcs?request=GetCoverage&service=WCS&version=1.0.0&coverage=cem30_workespace:cem3_r15&crs=EPSG:4326&bbox=-99.20027778,19.29972222,-99.09972222,19.40027778&resx=0.0002778&resy=0.0002778&format=GeoTIFF'',
      CallWriteMask 5 ''/tmp/CEM_QGIS_Temp/wcs_zona_30m/mask_poly_0001.geojson'',
      HttpGet ''https://gaia.inegi.org.mx/geoserver/wcs?request=GetCoverage&service=WCS&version=1.0.0&coverage=cem30_workespace:cem3_r15&crs=EPSG:4326&bbox=-99.20027778,19.29972222,-99.09972222,19.40027778&resx=0.0002778&resy=0.0002778&format=GeoTIFF''
        ''/tmp/CEM_QGIS_Temp/wcs_zona_30m/wcs_raw_poly_0001.tif'',
      CallClip ''/tmp/CEM_QGIS_Temp/wcs_zona_30m/wcs_raw_poly_0001.tif''
        ''/tmp/CEM_QGIS_Temp/wcs_zona_30m/mask_poly_0001.geojson''
        ''/tmp/CEM_QGIS_Temp/wcs_zona_30m/zona__poly0001__cem_30m_clip.tif'',
      CallAddRaster ''/tmp/CEM_QGIS_Temp/wcs_zona_30m/zona__poly0001__cem_30m_clip.tif'',
      Log (''[1/1] OK '' @ arrow @
           '' /tmp/CEM_QGIS_Temp/wcs_zona_30m/zona__poly0001__cem_30m_clip.tif''),
      SetValue 1, ProcessEvents, Log msg_done]"
proof -
  obtain u where b: "build_wcs_getcoverage_url
     (- (992 / 10) - 1 / 3600, 193 / 10 - 1 / 3600, - (991 / 10) + 1 / 3600, 194 / 10 + 1 / 3600)
     30 = Inr u"
    by (simp add: build_wcs_getcoverage_url_def step_values)
  note ts = example_url [OF b]
  have rt: "path_join (path_join ''/tmp'' ''CEM_QGIS_Temp'') (''wcs_'' @ ''zona'' @ ''_'' @ str_int 30 @ ''m'') =
      ''/tmp/CEM_QGIS_Temp/wcs_zona_30m''"
    "path_join ''/tmp'' ''CEM_QGIS_Temp'' = ''/tmp/CEM_QGIS_Temp''"
    by (simp_all add: path_join_def evals)
  have fail: "trace (snd (download_poligono_wcs_split_per_polygon (example_env ''zona'' [0]) 30 world0)) =
     [Explode, Mkdir ''/tmp/CEM_QGIS_Temp'', Mkdir ''/tmp/CEM_QGIS_Temp/wcs_zona_30m'',
      CallBBox 0, Log ''[1/1] ERROR: no transform'', SetValue 1, ProcessEvents,
      Log msg_done]"
    unfolding download_poligono_wcs_split_per_polygon_def Let_def plugin_temp_dir_def mkdir_def
      example_env_simps rt
    by (simp add: VALID_RES_def iteration_def completion_def world0_def example_fail
        example_paths path_join_def evals)
  have ok: "trace (snd (download_poligono_wcs_split_per_polygon (example_env ''zona'' [5]) 30 world0)) =
     [Explode, Mkdir ''/tmp/CEM_QGIS_Temp'', Mkdir ''/tmp/CEM_QGIS_Temp/wcs_zona_30m'',
      CallBBox 5,
      Log (''[1/1] WCS GetCoverage: '' @ toString u),
      CallWriteMask 5 ''/tmp/CEM_QGIS_Temp/wcs_zona_30m/mask_poly_0001.geojson'',
      HttpGet (toString u) ''/tmp/CEM_QGIS_Temp/wcs_zona_30m/wcs_raw_poly_0001.tif'',
      CallClip ''/tmp/CEM_QGIS_Temp/wcs_zona_30m/wcs_raw_poly_0001.tif''
        ''/tmp/CEM_QGIS_Temp/wcs_zona_30m/mask_poly_0001.geojson''
        ''/tmp/CEM_QGIS_Temp/wcs_zona_30m/zona__poly0001__cem_30m_clip.tif'',
      CallAddRaster ''/tmp/CEM_QGIS_Temp/wcs_zona_30m/zona__poly0001__cem_30m_clip.tif'',
      Log (''[1/1] OK '' @ arrow @
           '' /tmp/CEM_QGIS_Temp/wcs_zona_30m/zona__poly0001__cem_30m_clip.tif''),
      SetValue 1, ProcessEvents, Log msg_done]"
    unfolding download_poligono_wcs_split_per_polygon_def Let_def plugin_temp_dir_def mkdir_def
      example_env_simps rt
    by (cases "attempt (example_env ''zona'' [5]) (Suc 0) 30 ''/tmp/CEM_QGIS_Temp/wcs_zona_30m'' (Suc 0) 5
          (emit (Mkdir ''/tmp/CEM_QGIS_Temp/wcs_zona_30m'')
            (emit (Mkdir ''/tmp/CEM_QGIS_Temp'') (emit Explode world0)))")
      (use example_ok [OF b, of "[5]" "Suc 0" "''/tmp/CEM_QGIS_Temp/wcs_zona_30m''" "Suc 0"
          "emit (Mkdir ''/tmp/CEM_QGIS_Temp/wcs_zona_30m'')
            (emit (Mkdir ''/tmp/CEM_QGIS_Temp'') (emit Explode world0))"]
        in \<open>simp add: VALID_RES_def iteration_def completion_def world0_def example_paths
          path_join_def evals\<close>)
  show ?thesis
    using fail ok unfolding ts by simp
qed

subsection \<open>The log of the whole run\<close>

lemma logs_append [simp]: "logs (xs @ ys) = logs xs @ logs ys"
  by (induction xs rule: logs.induct) simp_all

lemma logs_cb [simp]: "logs (trace (cb env i tot br bt w)) = logs (trace w)"
  by (simp add: cb_def)

lemma logs_fold_signal [simp]:
  "logs (trace (fold (on_signal p (Some (cb env i tot))) ss w)) = logs (trace w)"
proof (induction ss arbitrary: w)
  case Nil
  then show ?case by simp
next
  case (Cons s ss)
  then show ?case by (cases s) simp_all
qed

lemma logs_http [simp]:
  "logs (trace (snd (http_get_to_file_progress env u p (Some (cb env i tot)) w))) = logs (trace w)"
  by (simp add: http_get_to_file_progress_def Let_def split: option.splits)

lemma fst_http:
  "fst (http_get_to_file_progress env u p progress_cb w) =
     (case open_error env p of
        Some m \<Rightarrow> Inl (OSError m)
      | None \<Rightarrow>
          if reply_error (net_reply env (toString u)) \<noteq> 0
          then Inl (RuntimeError (msg_net @ error_string (net_reply env (toString u))))
          else Inr ())"
  by (simp add: http_get_to_file_progress_def Let_def split: option.splits)

lemma logs_mask [simp]:
  "logs (trace (snd (write_single_polygon_geojson_4326 env g p w))) = logs (trace w)"
  by (simp add: write_single_polygon_geojson_4326_def Let_def split: sum.splits prod.splits)

lemma fst_mask:
  "fst (write_single_polygon_geojson_4326 env g p w) =
     (case write_vector env g p of
        Inl e \<Rightarrow> Inl e
      | Inr (err_code, err_msg) \<Rightarrow>
          if err_code \<noteq> 0
          then Inl (RuntimeError (msg_mask @ (case err_msg of None \<Rightarrow> [] | Some m \<Rightarrow> m)))
          else Inr ())"
  by (simp add: write_single_polygon_geojson_4326_def Let_def split: sum.splits prod.splits)

lemma attempt_result_any:
  "fst (attempt env tot res_m rt i g w) = attempt_result env tot res_m rt i g"
  unfolding attempt_result_def
  by (simp add: attempt_def Let_def split_beta fst_http fst_mask split: sum.splits option.splits)


lemma attempt_logs:
  "logs (trace (snd (attempt env tot res_m rt i g w))) =
     logs (trace w) @ request_line env tot res_m i g @
     (case attempt_result env tot res_m rt i g of
        Inl e \<Rightarrow> []
      | Inr _ \<Rightarrow>
          [if add_raster env (out_tif_path rt (layer_name env) res_m i) = Inr True
           then tag i tot @ ''OK '' @ arrow @ '' '' @ out_tif_path rt (layer_name env) res_m i
           else tag i tot @ ''Archivo inv'' @ [CHR 0xC3, CHR 0xA1] @ ''lido (no cargado): '' @
                out_tif_path rt (layer_name env) res_m i])"
  unfolding attempt_result_def
  by (simp add: attempt_def Let_def split_beta request_line_def fst_http fst_mask
      split: sum.splits option.splits)

lemma iteration_logs:
  "logs (trace (iteration env tot res_m rt i f w)) =
     logs (trace w) @ polygon_logs env tot res_m rt i f"
proof -
  have r: "fst (attempt env tot res_m rt i f w) = attempt_result env tot res_m rt i f"
    by (rule attempt_result_any)
  show ?thesis
    using r attempt_logs [of env tot res_m rt i f w]
    by (cases "attempt env tot res_m rt i f w")
      (auto simp add: iteration_def Let_def polygon_logs_def split: sum.splits)
qed

lemma run_loop_logs:
  "logs (trace (run_loop env tot res_m rt i fs w)) =
     logs (trace w) @
     concat (map (\<lambda>(k, f). polygon_logs env tot res_m rt k f) (zip [i..<i + length fs] fs))"
proof (induction fs arbitrary: i w)
  case Nil
  then show ?case by simp
next
  case (Cons f fs)
  have "[i..<i + length (f # fs)] = i # [Suc i..<Suc i + length fs]"
    by (subst upt_rec) simp
  then show ?case
    using Cons.IH [of "Suc i" "iteration env tot res_m rt i f w"]
    by (simp add: iteration_logs)
qed

lemma widgets_env_simps:
  "layer_name widgets_env = ''zona''"
  "explode widgets_env = Inr [0, 5]"
  "mkdir_error widgets_env d = None"
  "open_error widgets_env p = None"
  "bbox_4326 widgets_env 0 = Inl (QgisError ''no transform'')"
  "bbox_4326 widgets_env 5 = Inr (- (992 / 10), 193 / 10, - (991 / 10), 194 / 10)"
  "write_vector widgets_env g p = Inr (0, None)"
  "reply_error (net_reply widgets_env x) = 0"
  "clip widgets_env a b c = Inr ()"
  "add_raster widgets_env p = Inr True"
  "has_status widgets_env = True"
  "has_progress widgets_env = True"
  "run_root widgets_env 30 = ''/tmp/CEM_QGIS_Temp/wcs_zona_30m''"
  by (simp_all add: widgets_env_def example_env_def run_root_def path_join_def evals)

lemma widgets_logs_failed:
  "polygon_logs widgets_env 2 30 rt (Suc 0) 0 = [''[1/2] ERROR: no transform'']"
  by (simp add: polygon_logs_def request_line_def attempt_result_def attempt_def
      widgets_env_simps evals)

lemma widgets_logs_loaded:
  "polygon_logs widgets_env 2 30 ''/tmp/CEM_QGIS_Temp/wcs_zona_30m'' 2 5 =
     [''[2/2] WCS GetCoverage: https://gaia.inegi.org.mx/geoserver/wcs?request=GetCoverage&service=WCS&version=1.0.0&coverage=cem30_workespace:cem3_r15&crs=EPSG:4326&bbox=-99.20027778,19.29972222,-99.09972222,19.40027778&resx=0.0002778&resy=0.0002778&format=GeoTIFF'',
      ''[2/2] OK '' @ arrow @
      '' /tmp/CEM_QGIS_Temp/wcs_zona_30m/zona__poly0002__cem_30m_clip.tif'']"
proof -
  obtain u where b: "build_wcs_getcoverage_url
     (- (992 / 10) - 1 / 3600, 193 / 10 - 1 / 3600, - (991 / 10) + 1 / 3600, 194 / 10 + 1 / 3600)
     30 = Inr u"
    by (simp add: build_wcs_getcoverage_url_def step_values)
  note ts = example_url [OF b]
  have r: "attempt_result widgets_env 2 30 ''/tmp/CEM_QGIS_Temp/wcs_zona_30m'' 2 5 = Inr ()"
    unfolding attempt_result_def using b
    by (simp add: attempt_def Let_def split_beta fst_http fst_mask widgets_env_simps step_values)
  have q: "request_line widgets_env 2 30 2 5 = [tag 2 2 @ ''WCS GetCoverage: '' @ toString u]"
    using b by (simp add: request_line_def widgets_env_simps step_values)
  have o: "out_tif_path ''/tmp/CEM_QGIS_Temp/wcs_zona_30m'' ''zona'' 30 2 =
      ''/tmp/CEM_QGIS_Temp/wcs_zona_30m/zona__poly0002__cem_30m_clip.tif''"
    by (simp add: out_tif_path_def path_join_def evals)
  have t: "tag 2 2 = ''[2/2] ''"
    by (simp add: evals)
  show ?thesis
    unfolding polygon_logs_def r q o t ts widgets_env_simps by simp
qed

text \<open>
  Claim C7, amended. On completion of a non-empty batch the function reports no summary.
  After the loop it only sets the fixed status text \<open>msg_done_status\<close>, when both widgets
  were passed, and logs the fixed line \<open>msg_done\<close>. The log of the whole run is, polygon
  by polygon in index order, the lines of \<open>polygon_logs\<close>: the request line, then the
  line \<open>[i/total] ERROR: detail\<close> when the attempt on the polygon raised, and the line
  that tells whether the clipped raster loaded otherwise; then that fixed line. No line
  states a count of polygons.
\<close>

theorem completion_is_fixed_message:
  assumes "res_m \<in> set VALID_RES" and "explode env = Inr feats" and "feats \<noteq> []"
    and "\<forall>d. mkdir_error env d = None"
  shows "\<exists>es0.
           download_poligono_wcs_split_per_polygon env res_m w =
             (Inr (),
              emits ((if has_status env \<and> has_progress env
                      then [SetText msg_done_status, ProcessEvents] else []) @ [Log msg_done])
                (run_loop env (length feats) res_m (run_root env res_m) 1 feats
                   (emits (Explode # es0) w))) \<and>
           logs (trace (snd (download_poligono_wcs_split_per_polygon env res_m w))) =
             logs (trace w) @
             concat (map (\<lambda>(k, f). polygon_logs env (length feats) res_m (run_root env res_m) k f)
                       (zip [1..<Suc (length feats)] feats)) @
             [msg_done]"
proof -
  let ?pre = "if has_status env \<and> has_progress env
    then [SetText (''Preparando '' @ dec (length feats) @ '' pol'' @ [CHR 0xC3, CHR 0xAD] @
                   ''gonos'' @ ellipsis),
          SetRange 0 (length feats), SetValue 0, ProcessEvents] else []"
  let ?es = "?pre @ [Mkdir (path_join (temp_location env) ''CEM_QGIS_Temp''),
                     Mkdir (run_root env res_m)]"
  have dl: "download_poligono_wcs_split_per_polygon env res_m w =
           (Inr (), emits (completion env)
              (run_loop env (length feats) res_m (run_root env res_m) 1 feats
                 (emits (Explode # ?es) w)))"
    using assms
    by (simp add: download_poligono_wcs_split_per_polygon_def Let_def plugin_temp_dir_def
        mkdir_def run_root_def emit_def emits_def)
  have lg: "logs (trace (snd (download_poligono_wcs_split_per_polygon env res_m w))) =
             logs (trace w) @
             concat (map (\<lambda>(k, f). polygon_logs env (length feats) res_m (run_root env res_m) k f)
                       (zip [1..<Suc (length feats)] feats)) @
             [msg_done]"
    unfolding dl
    by (simp add: run_loop_logs completion_def del: upt_Suc)
  show ?thesis
    using dl lg by (auto simp add: completion_def)
qed

theorem completion_is_fixed_message_witness:
  "(30::int) \<in> set VALID_RES \<and> explode widgets_env = Inr [0, 5] \<and> [0::nat, 5] \<noteq> [] \<and>
   (\<forall>d. mkdir_error widgets_env d = None) \<and>
   logs (trace (snd (download_poligono_wcs_split_per_polygon widgets_env 30 world0))) =
     [''[1/2] ERROR: no transform'',
      ''[2/2] WCS GetCoverage: https://gaia.inegi.org.mx/geoserver/wcs?request=GetCoverage&service=WCS&version=1.0.0&coverage=cem30_workespace:cem3_r15&crs=EPSG:4326&bbox=-99.20027778,19.29972222,-99.09972222,19.40027778&resx=0.0002778&resy=0.0002778&format=GeoTIFF'',
      ''[2/2] OK '' @ arrow @
      '' /tmp/CEM_QGIS_Temp/wcs_zona_30m/zona__poly0002__cem_30m_clip.tif'',
      msg_done]"
proof -
  have h1: "(30::int) \<in> set VALID_RES" by (simp add: VALID_RES_def)
  have h2: "explode widgets_env = Inr [0, 5]" by (rule widgets_env_simps)
  have h3: "[0::nat, 5] \<noteq> []" by simp
  have h4: "\<forall>d. mkdir_error widgets_env d = None" by (simp add: widgets_env_simps)
  have lg: "logs (trace (snd (download_poligono_wcs_split_per_polygon widgets_env 30 world0))) =
      logs (trace world0) @
      concat (map (\<lambda>(k, f). polygon_logs widgets_env (length [0::nat, 5]) 30
                               (run_root widgets_env 30) k f)
                (zip [1..<Suc (length [0::nat, 5])] [0::nat, 5])) @
      [msg_done]"
    using completion_is_fixed_message [OF h1 h2 h3 h4, of world0] by blast
  have len: "length [0::nat, 5] = 2" by simp
  have z: "zip [1..<Suc 2] [0::nat, 5] = [(Suc 0, 0), (2, 5)]"
    by (simp add: upt_rec)
  have "logs (trace (snd (download_poligono_wcs_split_per_polygon widgets_env 30 world0))) =
     [''[1/2] ERROR: no transform'',
      ''[2/2] WCS GetCoverage: https://gaia.inegi.org.mx/geoserver/wcs?request=GetCoverage&service=WCS&version=1.0.0&coverage=cem30_workespace:cem3_r15&crs=EPSG:4326&bbox=-99.20027778,19.29972222,-99.09972222,19.40027778&resx=0.0002778&resy=0.0002778&format=GeoTIFF'',
      ''[2/2] OK '' @ arrow @
      '' /tmp/CEM_QGIS_Temp/wcs_zona_30m/zona__poly0002__cem_30m_clip.tif'',
      msg_done]"
    unfolding lg len z widgets_env_simps
    by (simp add: widgets_logs_failed widgets_logs_loaded world0_def)
  with h1 h2 h3 h4 show ?thesis by blast
qed

end
